theory Spec2Isabelle
  imports Main "HOL-Library.Sublist"
begin

section \<open>The index generator for snapshot builds (scripts/make-index.py)\<close>

text \<open>
  The script is one procedure, \<open>main\<close>. Its inputs are the parsed command line, the
  environment variable \<open>GITHUB_TOKEN\<close>, the JSON state file, whether the two output
  files can be opened for writing, the remote API and the clock;
  its effects are the HTTP requests it issues and the two files it writes. The model makes
  each of them explicit: the inputs are arguments of \<open>main\<close>, the effects are a record
  \<open>effects\<close> returned next to the outcome, and every exception of the source is a value of
  the type \<open>error\<close>. Text printed on standard output is not modelled.
\<close>

subsection \<open>Values, records of builds, errors\<close>

text \<open>
  A build record is a Python dict read from JSON or built from the command line. The
  state file the script writes holds strings, and booleans under the legacy key
  \<open>win32\<close>; those are the values of the model. A dict is an association list, looked up
  with \<open>map_of\<close>.
\<close>

datatype jval = JStr string | JBool bool

type_synonym build = "(string \<times> jval) list"

datatype error =
    KeyError string
  | JSONDecodeError
  | ArgumentError
  | ParserError
  | IndexError
  | ValueError
  | TypeError
  | HTTPError nat
  | BadBody
  | UndefinedError
  | OSError

text \<open>\<open>record[key]\<close>: raises KeyError when the key is missing.\<close>

definition getitem :: "build \<Rightarrow> string \<Rightarrow> error + jval" where
  "getitem record key =
     (case map_of record key of None \<Rightarrow> Inl (KeyError key) | Some v \<Rightarrow> Inr v)"

text \<open>\<open>str(v)\<close>, as an f-string and a template expression print a value.\<close>

fun py_str :: "jval \<Rightarrow> string" where
  "py_str (JStr s) = s"
| "py_str (JBool True) = ''True''"
| "py_str (JBool False) = ''False''"

text \<open>Truth value of a value.\<close>

fun truthy :: "jval \<Rightarrow> bool" where
  "truthy (JStr s) = (s \<noteq> [])"
| "truthy (JBool b) = b"

text \<open>Sequencing of steps that may raise.\<close>

definition bind :: "error + 'a \<Rightarrow> ('a \<Rightarrow> error + 'b) \<Rightarrow> error + 'b" where
  "bind m f = (case m of Inl e \<Rightarrow> Inl e | Inr x \<Rightarrow> f x)"

text \<open>\<open>s.split(sep)\<close> for a one-character separator: never empty, keeps empty pieces.\<close>

fun split :: "char \<Rightarrow> string \<Rightarrow> string list" where
  "split sep [] = [[]]"
| "split sep (c # cs) =
     (if c = sep then [] # split sep cs
      else (case split sep cs of [] \<Rightarrow> [[c]] | w # ws \<Rightarrow> (c # w) # ws))"

text \<open>Decimal text of a number, as an f-string and a template expression print it.\<close>

fun show_nat :: "nat \<Rightarrow> string" where
  "show_nat n =
     (if n < 10 then [char_of (48 + n)]
      else show_nat (n div 10) @ [char_of (48 + n mod 10)])"

definition show_int :: "int \<Rightarrow> string" where
  "show_int i = (if i < 0 then CHR ''-'' # show_nat (nat (- i)) else show_nat (nat i))"

subsection \<open>Constants of the script\<close>

definition REPO :: string where
  "REPO = ''openslide/builds''"

definition CONTAINERS :: "string list" where
  "CONTAINERS = [''openslide/linux-builder'', ''openslide/winbuild-builder'']"

definition RETAIN :: nat where
  "RETAIN = 30"

subsection \<open>Slices\<close>

text \<open>
  \<open>xs[:-n]\<close> and \<open>xs[-n:]\<close> for a positive \<open>n\<close> (here \<open>RETAIN\<close>): Python clamps the
  start \<open>len(xs) - n\<close> at 0, as the subtraction on \<open>nat\<close> does.
\<close>

definition slice_until_last :: "nat \<Rightarrow> 'a list \<Rightarrow> 'a list" where
  "slice_until_last n xs = take (length xs - n) xs"

definition slice_last :: "nat \<Rightarrow> 'a list \<Rightarrow> 'a list" where
  "slice_last n xs = drop (length xs - n) xs"

subsection \<open>Command line and state file\<close>

text \<open>
  The namespace \<open>argparse\<close> returns: every option is \<open>None\<close> when absent, else the
  string given (which may be empty). The website directory only names the two files,
  which are modelled directly.
\<close>

record args =
  pkgver :: "string option"
  linux_builder :: "string option"
  windows_builder :: "string option"
  openslide :: "string option"
  java :: "string option"
  winbuild :: "string option"

text \<open>\<open>if args.x\<close>: false for \<open>None\<close> and for the empty string.\<close>

fun given :: "string option \<Rightarrow> bool" where
  "given None = False"
| "given (Some s) = (s \<noteq> [])"

text \<open>
  What \<open>open(args.dir / JSON)\<close> followed by \<open>json.load(fh)['builds']\<close> meets:
  the open raises IOError, the text is not JSON, the object has no key \<open>builds\<close>, or the
  list of records is there.
\<close>

datatype state_file =
    OpenFails
  | NotJson
  | NoBuilds
  | Builds "build list"

text \<open>Lines 173-178: only IOError is caught.\<close>

fun load_records :: "state_file \<Rightarrow> error + build list" where
  "load_records OpenFails = Inr []"
| "load_records NotJson = Inl JSONDecodeError"
| "load_records NoBuilds = Inl (KeyError ''builds'')"
| "load_records (Builds records) = Inr records"

text \<open>
  Lines 180-196. \<open>parse_date s\<close> stands for
  \<open>dateutil.parser.parse(s).date().isoformat()\<close>, \<open>None\<close> when the library raises.
\<close>

definition new_record ::
  "string \<Rightarrow> string \<Rightarrow> string \<Rightarrow> string \<Rightarrow> string \<Rightarrow> string \<Rightarrow> string \<Rightarrow> build" where
  "new_record v d lb wb os jv wv =
     [(''pkgver'', JStr v),
      (''date'', JStr d),
      (''linux-builder'', JStr lb),
      (''windows-builder'', JStr wb),
      (''openslide'', JStr os),
      (''openslide-java'', JStr jv),
      (''openslide-winbuild'', JStr wv)]"

definition build_new_record ::
  "(string \<Rightarrow> string option) \<Rightarrow> args \<Rightarrow> build list \<Rightarrow> error + build list" where
  "build_new_record parse_date a records =
     (if given (pkgver a) then
        (if \<not> given (linux_builder a) \<or> \<not> given (windows_builder a) \<or>
            \<not> given (openslide a) \<or> \<not> given (java a) \<or> \<not> given (winbuild a)
         then Inl ArgumentError
         else
           (case (pkgver a, linux_builder a, windows_builder a,
                  openslide a, java a, winbuild a) of
              (Some v, Some lb, Some wb, Some os, Some jv, Some wv) \<Rightarrow>
                (case split CHR ''-'' v of
                   [] \<Rightarrow> Inl IndexError
                 | p # _ \<Rightarrow>
                     (case parse_date p of
                        None \<Rightarrow> Inl ParserError
                      | Some d \<Rightarrow> Inr (records @ [new_record v d lb wb os jv wv])))
            | _ \<Rightarrow> Inl ArgumentError))
      else Inr records)"

subsection \<open>The remote API\<close>

text \<open>
  A request is its method, URL and headers; a response is its status code and its JSON
  body as far as the script reads it: a release object with its \<open>id\<close>, a list of
  package versions with \<open>name\<close> and \<open>html_url\<close> each, or anything else (on which
  \<open>resp.json()\<close> or the subscripts raise). The remote side is a function from the
  exchanges so far and the request to the response, so that its answers may depend on
  what was deleted before. The log of exchanges is the script's effect on the network.
  Failures below HTTP (no connection, a timeout) are not modelled.
\<close>

datatype http_method = GET | DELETE

record request =
  meth :: http_method
  url :: string
  headers :: "(string \<times> string) list"

datatype body =
    Release int
  | Versions "(string \<times> string) list"
  | Unusable

record response =
  status_code :: nat
  body :: body

type_synonym exchange = "request \<times> response"

type_synonym network = "exchange list \<Rightarrow> request \<Rightarrow> response"

text \<open>\<open>Response.raise_for_status()\<close>: HTTPError for 4xx and 5xx, nothing otherwise.\<close>

definition raise_for_status :: "response \<Rightarrow> error option" where
  "raise_for_status resp =
     (if 400 \<le> status_code resp \<and> status_code resp < 600
      then Some (HTTPError (status_code resp)) else None)"

text \<open>Lines 199-202.\<close>

definition make_headers :: "string \<Rightarrow> (string \<times> string) list" where
  "make_headers token =
     [(''Accept'', ''application/vnd.github.v3+json''),
      (''Authorization'', ''token '' @ token)]"

definition release_by_tag :: "(string \<times> string) list \<Rightarrow> jval \<Rightarrow> request" where
  "release_by_tag hs v =
     \<lparr>meth = GET,
      url = ''https://api.github.com/repos/'' @ REPO @ ''/releases/tags/windows-'' @ py_str v,
      headers = hs\<rparr>"

definition delete_release :: "(string \<times> string) list \<Rightarrow> int \<Rightarrow> request" where
  "delete_release hs rid =
     \<lparr>meth = DELETE,
      url = ''https://api.github.com/repos/'' @ REPO @ ''/releases/'' @ show_int rid,
      headers = hs\<rparr>"

text \<open>\<open>resp.json()\<close> and \<open>release["id"]\<close>.\<close>

fun release_id :: "body \<Rightarrow> error + int" where
  "release_id (Release rid) = Inr rid"
| "release_id _ = Inl BadBody"

text \<open>
  Lines 203-217, the loop over \<open>records[:-RETAIN]\<close>, given the list it runs over. The
  result is the exception raised, if any, and the log of exchanges.
\<close>

fun prune ::
  "network \<Rightarrow> (string \<times> string) list \<Rightarrow> exchange list \<Rightarrow> build list
     \<Rightarrow> error option \<times> exchange list" where
  "prune net hs log [] = (None, log)"
| "prune net hs log (record # rest) =
     (case getitem record ''pkgver'' of
        Inl e \<Rightarrow> (Some e, log)
      | Inr v \<Rightarrow>
          (let req = release_by_tag hs v;
               resp = net log req;
               log1 = log @ [(req, resp)]
           in if status_code resp = 404 then prune net hs log1 rest
              else
                (case raise_for_status resp of
                   Some e \<Rightarrow> (Some e, log1)
                 | None \<Rightarrow>
                     (case release_id (body resp) of
                        Inl e \<Rightarrow> (Some e, log1)
                      | Inr rid \<Rightarrow>
                          (let dreq = delete_release hs rid;
                               dresp = net log1 dreq;
                               log2 = log1 @ [(dreq, dresp)]
                           in case raise_for_status dresp of
                                Some e \<Rightarrow> (Some e, log2)
                              | None \<Rightarrow> prune net hs log2 rest)))))"

text \<open>Lines 220-231. The dict \<open>container_images\<close> is a map from reference to URL.\<close>

type_synonym images = "string \<rightharpoonup> string"

definition versions_request :: "(string \<times> string) list \<Rightarrow> string \<Rightarrow> string \<Rightarrow> request" where
  "versions_request hs container_org container_name =
     \<lparr>meth = GET,
      url = ''https://api.github.com/orgs/'' @ container_org @ ''/packages/container/''
              @ container_name @ ''/versions?per_page=100'',
      headers = hs\<rparr>"

fun add_images :: "string \<Rightarrow> string \<Rightarrow> (string \<times> string) list \<Rightarrow> images \<Rightarrow> images" where
  "add_images container_org container_name [] ci = ci"
| "add_images container_org container_name ((name, html_url) # rest) ci =
     add_images container_org container_name rest
       (ci(''ghcr.io/'' @ container_org @ ''/'' @ container_name @ ''@'' @ name \<mapsto> html_url))"

fun versions_of :: "body \<Rightarrow> error + (string \<times> string) list" where
  "versions_of (Versions vs) = Inr vs"
| "versions_of _ = Inl BadBody"

fun fetch_images ::
  "network \<Rightarrow> (string \<times> string) list \<Rightarrow> exchange list \<Rightarrow> images \<Rightarrow> string list
     \<Rightarrow> (error + images) \<times> exchange list" where
  "fetch_images net hs log ci [] = (Inr ci, log)"
| "fetch_images net hs log ci (container # rest) =
     (case split CHR ''/'' container of
        [container_org, container_name] \<Rightarrow>
          (let req = versions_request hs container_org container_name;
               resp = net log req;
               log1 = log @ [(req, resp)]
           in case raise_for_status resp of
                Some e \<Rightarrow> (Inl e, log1)
              | None \<Rightarrow>
                  (case versions_of (body resp) of
                     Inl e \<Rightarrow> (Inl e, log1)
                   | Inr vs \<Rightarrow>
                       fetch_images net hs log1
                         (add_images container_org container_name vs ci) rest))
      | _ \<Rightarrow> (Inl ValueError, log))"

subsection \<open>Rows of the table\<close>

text \<open>Lines 233-255. A row is a dict with eleven fixed keys.\<close>

record row =
  row_date :: jval
  row_pkgver :: jval
  row_linux_builder :: jval
  row_windows_builder :: jval
  openslide_prev :: "jval option"
  openslide_cur :: jval
  java_prev :: "jval option"
  java_cur :: jval
  winbuild_prev :: "jval option"
  winbuild_cur :: jval
  win32 :: jval

text \<open>
  The closure \<open>prev(key)\<close>: \<open>prev_record\<close> is \<open>None\<close> for the first record; a dict is
  false when it is empty.
\<close>

definition prev :: "build option \<Rightarrow> build \<Rightarrow> string \<Rightarrow> error + jval option" where
  "prev prev_record record key =
     (case prev_record of
        None \<Rightarrow> Inr None
      | Some p \<Rightarrow>
          (if p = [] then Inr None
           else bind (getitem record key) (\<lambda>cur.
                bind (getitem p key) (\<lambda>old.
                Inr (if cur \<noteq> old then Some old else None)))))"

text \<open>\<open>record.get('win32', False)\<close>.\<close>

definition get_win32 :: "build \<Rightarrow> jval" where
  "get_win32 record = (case map_of record ''win32'' of None \<Rightarrow> JBool False | Some v \<Rightarrow> v)"

definition make_row :: "build option \<Rightarrow> build \<Rightarrow> error + row" where
  "make_row prev_record record =
     bind (getitem record ''date'') (\<lambda>d.
     bind (getitem record ''pkgver'') (\<lambda>v.
     bind (getitem record ''linux-builder'') (\<lambda>lb.
     bind (getitem record ''windows-builder'') (\<lambda>wb.
     bind (prev prev_record record ''openslide'') (\<lambda>op.
     bind (getitem record ''openslide'') (\<lambda>oc.
     bind (prev prev_record record ''openslide-java'') (\<lambda>jp.
     bind (getitem record ''openslide-java'') (\<lambda>jc.
     bind (prev prev_record record ''openslide-winbuild'') (\<lambda>wp.
     bind (getitem record ''openslide-winbuild'') (\<lambda>wc.
     Inr \<lparr>row_date = d, row_pkgver = v, row_linux_builder = lb, row_windows_builder = wb,
          openslide_prev = op, openslide_cur = oc, java_prev = jp, java_cur = jc,
          winbuild_prev = wp, winbuild_cur = wc, win32 = get_win32 record\<rparr>))))))))))"

text \<open>The loop over \<open>records\<close>, started with \<open>prev_record = None\<close>.\<close>

fun make_rows :: "build option \<Rightarrow> build list \<Rightarrow> error + row list" where
  "make_rows prev_record [] = Inr []"
| "make_rows prev_record (record # rest) =
     bind (make_row prev_record record) (\<lambda>r.
     bind (make_rows (Some record) rest) (\<lambda>rs.
     Inr (r # rs)))"

subsection \<open>The template\<close>

text \<open>
  Lines 37-148, rendered as Jinja2 does with its default settings: text outside the tags
  is copied with its line breaks and indentation, a macro definition prints nothing, the
  one line break at the end of the template is dropped, values are not escaped.
\<close>

definition nl :: string where
  "nl = [CHR 0x0A]"

definition lines :: "string list \<Rightarrow> string" where
  "lines ls = concat (map (\<lambda>l. l @ nl) ls)"

text \<open>
  \<open>x[:8]\<close> in the template is Python's slice: the first eight characters of a string,
  TypeError on a boolean.
\<close>

fun slice8 :: "jval \<Rightarrow> error + string" where
  "slice8 (JStr s) = Inr (take 8 s)"
| "slice8 (JBool b) = Inl TypeError"

text \<open>The macro \<open>revision_link(repo, prev, cur)\<close>, lines 77-85.\<close>

definition plain_revision :: "jval \<Rightarrow> error + string" where
  "plain_revision cur =
     bind (slice8 cur) (\<lambda>c8.
     Inr (nl @ ''  '' @ nl @
          ''    '' @ c8 @ nl @
          ''  '' @ nl))"

definition revision_link :: "string \<Rightarrow> jval option \<Rightarrow> jval \<Rightarrow> error + string" where
  \<open>revision_link repo p cur =
     (case p of
        None \<Rightarrow> plain_revision cur
      | Some pv \<Rightarrow>
          (if truthy pv then
             bind (slice8 pv) (\<lambda>p8.
             bind (slice8 cur) (\<lambda>c8.
             Inr (nl @ ''  '' @ nl @
                  ''    <a href="https://github.com/openslide/'' @ repo @ ''/compare/'' @ p8
                    @ ''...'' @ c8 @ ''">'' @ nl @
                  ''      '' @ c8 @ nl @
                  ''    </a>'' @ nl @
                  ''  '' @ nl)))
           else plain_revision cur))\<close>

text \<open>
  \<open>builder.split('@')[1].split(':')[1][:8]\<close>, line 88. A subscript out of range gives
  Jinja2's undefined value, and the next attribute or slice of that raises; so does
  \<open>split\<close> on a boolean.
\<close>

fun builder_short :: "jval \<Rightarrow> error + string" where
  "builder_short (JBool b) = Inl UndefinedError"
| "builder_short (JStr s) =
     (case split CHR ''@'' s of
        _ # digest # _ \<Rightarrow>
          (case split CHR '':'' digest of
             _ # hex # _ \<Rightarrow> Inr (take 8 hex)
           | _ \<Rightarrow> Inl UndefinedError)
      | _ \<Rightarrow> Inl UndefinedError)"

text \<open>\<open>builder in container_images\<close> and \<open>container_images[builder]\<close>.\<close>

fun image_url :: "images \<Rightarrow> jval \<Rightarrow> string option" where
  "image_url ci (JStr s) = ci s"
| "image_url ci (JBool b) = None"

text \<open>The macro \<open>builder_link(builder)\<close>, lines 87-96.\<close>

definition builder_link :: "images \<Rightarrow> jval \<Rightarrow> error + string" where
  \<open>builder_link ci builder =
     bind (builder_short builder) (\<lambda>short.
     Inr (nl @ ''  '' @ nl @ ''  '' @
          (case image_url ci builder of
             Some u \<Rightarrow>
               nl @ ''    <a href="'' @ u @ ''">'' @ nl @
               ''      '' @ short @ nl @
               ''    </a>'' @ nl @
               ''  ''
           | None \<Rightarrow>
               nl @ ''    '' @ short @ nl @
               ''  '')
          @ nl))\<close>

text \<open>Lines 37-76 and 98-109: the text before the loop over the rows.\<close>

definition style_lines :: "string list" where
  \<open>style_lines =
     [''<!doctype html>'',
      '''',
      ''<style type="text/css">'',
      ''  table {'',
      ''    margin-left: 20px;'',
      ''    border-collapse: collapse;'',
      ''  }'',
      ''  th.repo {'',
      ''    padding-right: 1em;'',
      ''  }'',
      ''  td {'',
      ''    padding-right: 20px;'',
      ''  }'',
      ''  td.date {'',
      ''    padding-left: 5px;'',
      ''  }'',
      ''  td.revision {'',
      ''    font-family: monospace;'',
      ''  }'',
      ''  td.spacer {'',
      ''    padding-right: 25px;'',
      ''  }'',
      ''  td.win64 {'',
      ''    padding-right: 5px;'',
      ''  }'',
      ''  tr {'',
      ''    height: 2em;'',
      ''  }'',
      ''  tr:nth-child(2n) {'',
      ''    background-color: #e8e8e8;'',
      ''  }'',
      ''</style>'',
      '''',
      ''<title>OpenSlide development builds</title>'',
      ''<h1>OpenSlide development builds</h1>'',
      '''']\<close>

definition table_head_lines :: "string list" where
  \<open>table_head_lines =
     [''<table>'',
      ''  <tr>'',
      ''    <th>Date</th>'',
      ''    <th class="repo">openslide</th>'',
      ''    <th class="repo">openslide-java</th>'',
      ''    <th class="repo">openslide-winbuild</th>'',
      ''    <th class="repo">linux-builder</th>'',
      ''    <th class="repo">winbuild-builder</th>'',
      ''    <th></th>'',
      ''    <th colspan="3">Downloads</th>'',
      ''  </tr>'']\<close>

definition template_head :: "nat \<Rightarrow> string" where
  "template_head retain =
     lines style_lines @
     ''<p>Here are the '' @ show_nat retain @ '' newest successful nightly builds.'' @ nl @
     lines [''Older builds are automatically deleted.'',
            ''Builds are skipped if nothing has changed.'',
            '''', '''', '''', '''', ''''] @
     lines table_head_lines @
     ''  ''"

text \<open>Lines 109-146: the body of the loop, for one row.\<close>

definition revision_cell :: "string \<Rightarrow> string" where
  \<open>revision_cell x =
     lines [''      <td class="revision">'', ''        '' @ x, ''      </td>'']\<close>

definition download_url :: "string \<Rightarrow> string \<Rightarrow> string" where
  "download_url kind v =
     ''https://github.com/openslide/builds/releases/download/windows-'' @ v
       @ ''/openslide-'' @ kind @ ''-'' @ v @ ''.zip''"

definition render_row :: "images \<Rightarrow> row \<Rightarrow> error + string" where
  \<open>render_row ci r =
     bind (revision_link ''openslide'' (openslide_prev r) (openslide_cur r)) (\<lambda>os.
     bind (revision_link ''openslide-java'' (java_prev r) (java_cur r)) (\<lambda>jv.
     bind (revision_link ''openslide-winbuild'' (winbuild_prev r) (winbuild_cur r)) (\<lambda>wv.
     bind (builder_link ci (row_linux_builder r)) (\<lambda>lb.
     bind (builder_link ci (row_windows_builder r)) (\<lambda>wb.
     Inr (nl @
          lines [''    <tr>'',
                 ''      <td class="date">'' @ py_str (row_date r) @ ''</td>''] @
          revision_cell os @ revision_cell jv @ revision_cell wv @
          revision_cell lb @ revision_cell wb @
          lines [''      <td class="spacer"></td>'',
                 ''      <td class="source">'',
                 ''        <a href="'' @ download_url ''winbuild'' (py_str (row_pkgver r)) @ ''">'',
                 ''          Source'',
                 ''        </a>'',
                 ''      </td>'',
                 ''      <td class="win32">'',
                 ''        '' @
                   (if truthy (win32 r) then
                      nl @
                      lines [''          <a href="'' @ download_url ''win32'' (py_str (row_pkgver r))
                               @ ''">'',
                             ''            Windows 32-bit'',
                             ''          </a>''] @
                      ''        ''
                    else []),
                 ''      </td>'',
                 ''      <td class="win64">'',
                 ''        <a href="'' @ download_url ''win64'' (py_str (row_pkgver r)) @ ''">'',
                 ''          Windows 64-bit'',
                 ''        </a>'',
                 ''      </td>'',
                 ''    </tr>''] @
          ''  ''))))))\<close>

fun render_rows :: "images \<Rightarrow> row list \<Rightarrow> error + string" where
  "render_rows ci [] = Inr []"
| "render_rows ci (r # rs) =
     bind (render_row ci r) (\<lambda>h.
     bind (render_rows ci rs) (\<lambda>t.
     Inr (h @ t)))"

text \<open>Lines 146-148: the text after the loop.\<close>

definition template_tail :: string where
  "template_tail = nl @ ''</table>''"

text \<open>\<open>template.stream(...)\<close> on the three variables it is given.\<close>

definition template :: "images \<Rightarrow> nat \<Rightarrow> row list \<Rightarrow> error + string" where
  "template container_images retain rows =
     bind (render_rows container_images rows) (\<lambda>b.
     Inr (template_head retain @ b @ template_tail))"

subsection \<open>The procedure\<close>

text \<open>
  The effects of a run: the exchanges with the remote API in the order they were made,
  and what became of the two files. The HTML file is opened for writing before the
  template is rendered into it, so an exception of the rendering leaves it incomplete.
\<close>

datatype html_state = Untouched | Incomplete | Complete string

record effects =
  exchanges :: "exchange list"
  html_file :: html_state
  json_file :: "(build list \<times> int) option"

definition before_writing :: "exchange list \<Rightarrow> effects" where
  "before_writing log = \<lparr>exchanges = log, html_file = Untouched, json_file = None\<rparr>"

text \<open>
  Whether \<open>open(args.dir / HTML, 'w')\<close> and \<open>open(args.dir / JSON, 'w')\<close> succeed
  (lines 258 and 267); they raise, for one, when the website directory does not exist.
  A failure while writing to an open file is not modelled.
\<close>

record targets =
  html_opens :: bool
  json_opens :: bool

text \<open>
  Lines 150-273. \<open>token\<close> is the environment variable \<open>GITHUB_TOKEN\<close>, \<open>now\<close> is
  \<open>int(datetime.now().timestamp())\<close>. The outcome is the exception that ended the run,
  or \<open>None\<close> when it reached its end.
\<close>

definition main ::
  "string option \<Rightarrow> args \<Rightarrow> state_file \<Rightarrow> targets \<Rightarrow> (string \<Rightarrow> string option)
     \<Rightarrow> network \<Rightarrow> int \<Rightarrow> error option \<times> effects" where
  "main token_env a file out parse_date net now =
     (case token_env of
        None \<Rightarrow> (Some (KeyError ''GITHUB_TOKEN''), before_writing [])
      | Some token \<Rightarrow>
     (case load_records file of
        Inl e \<Rightarrow> (Some e, before_writing [])
      | Inr loaded \<Rightarrow>
     (case build_new_record parse_date a loaded of
        Inl e \<Rightarrow> (Some e, before_writing [])
      | Inr records \<Rightarrow>
     (case prune net (make_headers token) [] (slice_until_last RETAIN records) of
        (Some e, log) \<Rightarrow> (Some e, before_writing log)
      | (None, log) \<Rightarrow>
     (case fetch_images net (make_headers token) log Map.empty CONTAINERS of
        (Inl e, log') \<Rightarrow> (Some e, before_writing log')
      | (Inr container_images, log') \<Rightarrow>
     (case make_rows None (slice_last RETAIN records) of
        Inl e \<Rightarrow> (Some e, before_writing log')
      | Inr rows \<Rightarrow>
     (if \<not> html_opens out then (Some OSError, before_writing log')
      else
     (case template container_images RETAIN (rev rows) of
        Inl e \<Rightarrow>
          (Some e, \<lparr>exchanges = log', html_file = Incomplete, json_file = None\<rparr>)
      | Inr html \<Rightarrow>
     (if \<not> json_opens out
      then (Some OSError,
            \<lparr>exchanges = log', html_file = Complete (html @ nl), json_file = None\<rparr>)
      else (None, \<lparr>exchanges = log', html_file = Complete (html @ nl),
                   json_file = Some (slice_last RETAIN records, now)\<rparr>))))))))))"

subsection \<open>Exchanges of the prune step\<close>

text \<open>
  A request is a lookup when it is a GET of a release by its tag, as line 206 builds it.
\<close>

definition is_lookup :: "request \<Rightarrow> bool" where
  "is_lookup req =
     (meth req = GET \<and>
      prefix (''https://api.github.com/repos/'' @ REPO @ ''/releases/tags/windows-'') (url req))"

text \<open>
  The exchanges that a prune step without exception makes for a list of records: for each
  record in turn the lookup of the release tagged with its version and, unless that was
  answered 404, directly after it the delete of the release with the id that the lookup
  returned.
\<close>

fun pruned :: "(string \<times> string) list \<Rightarrow> exchange list \<Rightarrow> build list \<Rightarrow> bool" where
  "pruned hs es [] = (es = [])"
| "pruned hs [] (record # rest) = False"
| "pruned hs ((q, resp) # es) (record # rest) =
     (case getitem record ''pkgver'' of
        Inl e \<Rightarrow> False
      | Inr v \<Rightarrow>
          q = release_by_tag hs v \<and>
          (if status_code resp = 404 then pruned hs es rest
           else
             (case body resp of
                Release rid \<Rightarrow>
                  (case es of
                     [] \<Rightarrow> False
                   | (dq, dresp) # es' \<Rightarrow> dq = delete_release hs rid \<and> pruned hs es' rest)
              | _ \<Rightarrow> False)))"

text \<open>
  An answer with an error status that the script does not handle: 4xx or 5xx, other than
  404 to a lookup.
\<close>

definition fatal :: "exchange \<Rightarrow> bool" where
  "fatal e =
     (400 \<le> status_code (snd e) \<and> status_code (snd e) < 600 \<and>
      \<not> (is_lookup (fst e) \<and> status_code (snd e) = 404))"

text \<open>
  A log of exchanges is guarded by an outcome when no exchange before the last one is
  fatal, and a fatal last one is what the outcome reports.
\<close>

definition guarded :: "error option \<Rightarrow> exchange list \<Rightarrow> bool" where
  "guarded r new \<longleftrightarrow>
     (new \<noteq> [] \<longrightarrow>
        (\<forall>e\<in>set (butlast new). \<not> fatal e) \<and>
        (fatal (last new) \<longrightarrow> r = Some (HTTPError (status_code (snd (last new))))))"

text \<open>The exception of a step that returns a value or raises.\<close>

definition raised :: "error + 'a \<Rightarrow> error option" where
  "raised r = (case r of Inl e \<Rightarrow> Some e | Inr x \<Rightarrow> None)"

subsection \<open>Inputs for sample runs\<close>

text \<open>
  One stored record, a complete and an empty command line, a date parser that knows one
  date, and two remote sides: one that has every release asked for, one that has none.
\<close>

definition demo_linux :: string where
  "demo_linux = ''ghcr.io/openslide/linux-builder@sha256:0123456789abcdef''"

definition demo_windows :: string where
  "demo_windows = ''ghcr.io/openslide/winbuild-builder@sha256:fedcba9876543210''"

definition demo_record :: build where
  "demo_record =
     new_record ''20230101-nightly'' ''2023-01-01'' demo_linux demo_windows
       ''1111111122'' ''ccccccccdddd'' ''eeeeeeeeffff''"

definition demo_new :: build where
  "demo_new =
     new_record ''20230102-nightly'' ''2023-01-02'' demo_linux demo_windows
       ''aaaaaaaabbbb'' ''ccccccccdddd'' ''eeeeeeeeffff''"

definition demo_args :: args where
  "demo_args =
     \<lparr>pkgver = Some ''20230102-nightly'', linux_builder = Some demo_linux,
      windows_builder = Some demo_windows, openslide = Some ''aaaaaaaabbbb'',
      java = Some ''ccccccccdddd'', winbuild = Some ''eeeeeeeeffff''\<rparr>"

definition no_args :: args where
  "no_args =
     \<lparr>pkgver = None, linux_builder = None, windows_builder = None, openslide = None,
      java = None, winbuild = None\<rparr>"

definition demo_date :: "string \<Rightarrow> string option" where
  "demo_date s = (if s = ''20230102'' then Some ''2023-01-02'' else None)"

definition versions_answer :: "request \<Rightarrow> response" where
  "versions_answer req =
     (if url req = url (versions_request [] ''openslide'' ''linux-builder'')
      then \<lparr>status_code = 200,
            body = Versions [(''sha256:0123456789abcdef'', ''https://example.org/l1'')]\<rparr>
      else \<lparr>status_code = 200, body = Versions []\<rparr>)"

definition demo_net :: network where
  "demo_net log req =
     (if meth req = DELETE then \<lparr>status_code = 204, body = Unusable\<rparr>
      else if is_lookup req then \<lparr>status_code = 200, body = Release 77\<rparr>
      else versions_answer req)"

definition gone_net :: network where
  "gone_net log req =
     (if meth req = DELETE then \<lparr>status_code = 204, body = Unusable\<rparr>
      else if is_lookup req then \<lparr>status_code = 404, body = Unusable\<rparr>
      else versions_answer req)"


definition demo_row :: row where
  "demo_row =
     \<lparr>row_date = JStr ''2023-01-01'', row_pkgver = JStr ''20230101-nightly'',
      row_linux_builder = JStr demo_linux, row_windows_builder = JStr demo_windows,
      openslide_prev = None, openslide_cur = JStr ''1111111122'',
      java_prev = None, java_cur = JStr ''ccccccccdddd'',
      winbuild_prev = None, winbuild_cur = JStr ''eeeeeeeeffff'',
      win32 = JBool False\<rparr>"

text \<open>A website directory in which both files can be written, and one that is missing.\<close>

definition writable :: targets where
  "writable = \<lparr>html_opens = True, json_opens = True\<rparr>"

definition missing_dir :: targets where
  "missing_dir = \<lparr>html_opens = False, json_opens = False\<rparr>"

text \<open>The row of the new record when it follows the stored one.\<close>

definition demo_new_row :: row where
  "demo_new_row =
     \<lparr>row_date = JStr ''2023-01-02'', row_pkgver = JStr ''20230102-nightly'',
      row_linux_builder = JStr demo_linux, row_windows_builder = JStr demo_windows,
      openslide_prev = Some (JStr ''1111111122''), openslide_cur = JStr ''aaaaaaaabbbb'',
      java_prev = None, java_cur = JStr ''ccccccccdddd'',
      winbuild_prev = None, winbuild_cur = JStr ''eeeeeeeeffff'',
      win32 = JBool False\<rparr>"

text \<open>A remote side that has every release but fails on the package versions.\<close>

definition flaky_net :: network where
  "flaky_net log req =
     (if meth req = DELETE then \<lparr>status_code = 204, body = Unusable\<rparr>
      else if is_lookup req then \<lparr>status_code = 200, body = Release 77\<rparr>
      else \<lparr>status_code = 500, body = Unusable\<rparr>)"

text \<open>A remote side that answers every request with status 500.\<close>

definition broken_net :: network where
  "broken_net log req = \<lparr>status_code = 500, body = Unusable\<rparr>"

section \<open>Auxiliary facts\<close>

subsection \<open>Slices\<close>

lemma slice_last_length: "length (slice_last n xs) = min n (length xs)"
  by (auto simp: slice_last_def)

lemma slice_parts: "slice_until_last n xs @ slice_last n xs = xs"
  by (simp add: slice_until_last_def slice_last_def)

lemma slice_last_suffix: "suffix (slice_last n xs) xs"
  by (simp add: slice_last_def suffix_drop)

lemma slice_last_snoc: "0 < n \<Longrightarrow> slice_last n (xs @ [x]) \<noteq> [] \<and> last (slice_last n (xs @ [x])) = x"
  by (auto simp: slice_last_def)

lemma slice_replicate:
  "slice_last k (replicate n x) = replicate (min k n) x"
  "slice_until_last k (replicate n x) = replicate (n - k) x"
  by (auto simp: slice_last_def slice_until_last_def min_def)

subsection \<open>Steps that may raise\<close>


lemma build_new_record_cases:
  assumes "build_new_record pd a loaded = Inr records"
  shows "(\<not> given (pkgver a) \<and> records = loaded) \<or>
         (given (pkgver a) \<and> (\<exists>r. records = loaded @ [r]))"
  using assms
  by (auto simp: build_new_record_def split: if_splits option.splits list.splits)

lemma build_new_record_Inr:
  assumes "build_new_record pd a loaded = Inr records"
  shows "(\<not> given (pkgver a) \<and> records = loaded) \<or>
         (\<exists>v d lb wb os jv wv p ps.
            pkgver a = Some v \<and> v \<noteq> [] \<and> linux_builder a = Some lb \<and>
            windows_builder a = Some wb \<and> openslide a = Some os \<and> java a = Some jv \<and>
            winbuild a = Some wv \<and> split CHR ''-'' v = p # ps \<and> pd p = Some d \<and>
            records = loaded @ [new_record v d lb wb os jv wv])"
proof (cases "given (pkgver a)")
  case False
  with assms show ?thesis by (simp add: build_new_record_def)
next
  case True
  with assms obtain v lb wb os jv wv where
    g: "pkgver a = Some v" "v \<noteq> []" "linux_builder a = Some lb"
       "windows_builder a = Some wb" "openslide a = Some os" "java a = Some jv"
       "winbuild a = Some wv"
    by (cases "pkgver a"; cases "linux_builder a"; cases "windows_builder a";
        cases "openslide a"; cases "java a"; cases "winbuild a")
       (auto simp: build_new_record_def split: if_splits)
  with assms obtain p ps d where
    "split CHR ''-'' v = p # ps" "pd p = Some d"
    "records = loaded @ [new_record v d lb wb os jv wv]"
    by (auto simp: build_new_record_def split: if_splits list.splits option.splits)
  with g show ?thesis by blast
qed

lemma build_no_args: "build_new_record pd no_args records = Inr records"
  by (simp add: build_new_record_def no_args_def)

lemma release_id_Inr: "release_id b = Inr rid \<longleftrightarrow> b = Release rid"
  by (cases b) auto

lemma raise_for_status_None:
  "raise_for_status resp = None \<Longrightarrow> \<not> fatal (q, resp)"
  by (auto simp: raise_for_status_def fatal_def split: if_splits)

lemma raise_for_status_Some:
  "raise_for_status resp = Some e \<Longrightarrow> e = HTTPError (status_code resp)"
  by (auto simp: raise_for_status_def split: if_splits)

lemma last_of_kept: "last (drop (length (xs @ [x]) - 30) (xs @ [x])) = x"
  by simp

lemma load_records_Inr:
  "load_records f = Inr loaded \<Longrightarrow> f = OpenFails \<and> loaded = [] \<or> f = Builds loaded"
  by (cases f) auto

subsection \<open>The shape of a run\<close>

lemma main_json_written:
  assumes "main tok a file out pd net now = (outcome, w)" and "json_file w = Some (kept, t)"
  obtains token loaded records where
    "tok = Some token" "load_records file = Inr loaded"
    "build_new_record pd a loaded = Inr records"
    "kept = slice_last RETAIN records" "t = now" "outcome = None"
  using assms
  by (auto simp: main_def before_writing_def
      split: option.splits sum.splits prod.splits if_splits)

lemma main_finished:
  assumes "main tok a file out pd net now = (None, w)"
  obtains token loaded records log ci rows html where
    "tok = Some token" "load_records file = Inr loaded"
    "build_new_record pd a loaded = Inr records"
    "prune net (make_headers token) [] (slice_until_last RETAIN records) = (None, log)"
    "fetch_images net (make_headers token) log Map.empty CONTAINERS = (Inr ci, exchanges w)"
    "make_rows None (slice_last RETAIN records) = Inr rows"
    "template ci RETAIN (rev rows) = Inr html"
    "html_file w = Complete (html @ nl)"
    "json_file w = Some (slice_last RETAIN records, now)"
    "html_opens out" "json_opens out"
  using assms
  by (auto simp: main_def before_writing_def
      split: option.splits sum.splits prod.splits if_splits)

lemma main_reaches_end:
  assumes "tok = Some token" "load_records file = Inr loaded"
    "build_new_record pd a loaded = Inr records"
    "prune net (make_headers token) [] (slice_until_last RETAIN records) = (None, log)"
    "fetch_images net (make_headers token) log Map.empty CONTAINERS = (Inr ci, log')"
    "make_rows None (slice_last RETAIN records) = Inr rows"
    "template ci RETAIN (rev rows) = Inr html"
    "html_opens out" "json_opens out"
  shows "main tok a file out pd net now =
     (None, \<lparr>exchanges = log', html_file = Complete (html @ nl),
             json_file = Some (slice_last RETAIN records, now)\<rparr>)"
  using assms by (simp add: main_def)

subsection \<open>Rows and their rendering\<close>




lemma render_rows_replicate:
  "render_row ci r = Inr h \<Longrightarrow> \<exists>b. render_rows ci (replicate n r) = Inr b"
  by (induction n) (auto simp: bind_def)

lemma render_rows_all:
  "\<forall>r\<in>set rs. \<exists>h. render_row ci r = Inr h \<Longrightarrow> \<exists>b. render_rows ci rs = Inr b"
  by (induction rs) (auto simp: bind_def)


subsection \<open>Requests and the log of exchanges\<close>

lemma request_meth:
  "meth (release_by_tag hs v) = GET" "meth (delete_release hs rid) = DELETE"
  by (simp_all add: release_by_tag_def delete_release_def)

lemma is_lookup_release_by_tag: "is_lookup (release_by_tag hs v)"
  by (simp add: is_lookup_def release_by_tag_def)

lemma is_lookup_delete_release: "\<not> is_lookup (delete_release hs rid)"
  by (simp add: is_lookup_def delete_release_def)

lemma is_lookup_versions_request: "\<not> is_lookup (versions_request hs org name)"
  by (simp add: is_lookup_def versions_request_def REPO_def)

lemma fetch_images_log:
  "fetch_images net hs log ci cs = (Inr ci', log') \<Longrightarrow>
     \<exists>new. log' = log @ new \<and> length new = length cs"
proof (induction cs arbitrary: log ci)
  case Nil
  then show ?case by simp
next
  case (Cons c cs)
  then show ?case
    by (fastforce simp: Let_def split: list.splits option.splits sum.splits)
qed


lemma fetch_images_gets:
  "fetch_images net hs log ci cs = (r, log') \<Longrightarrow>
     \<exists>new. log' = log @ new \<and> (\<forall>e\<in>set new. meth (fst e) = GET \<and> \<not> is_lookup (fst e))"
proof (induction cs arbitrary: log ci)
  case Nil
  then show ?case by simp
next
  case (Cons c cs)
  show ?case
  proof (cases "\<exists>org name. split CHR ''/'' c = [org, name]")
    case False
    with Cons.prems have "log' = log"
      by (auto split: list.splits)
    then show ?thesis by simp
  next
    case True
    then obtain org name where c: "split CHR ''/'' c = [org, name]" by blast
    let ?req = "versions_request hs org name"
    let ?e = "(?req, net log ?req)"
    have e: "meth (fst ?e) = GET \<and> \<not> is_lookup (fst ?e)"
      by (simp add: is_lookup_versions_request) (simp add: versions_request_def)
    show ?thesis
    proof (cases "\<exists>vs. raise_for_status (net log ?req) = None \<and>
                       versions_of (body (net log ?req)) = Inr vs")
      case False
      with Cons.prems c have "log' = log @ [?e]"
        by (auto simp: Let_def split: option.splits sum.splits)
      with e show ?thesis by (intro exI [of _ "[?e]"]) simp
    next
      case True
      then obtain vs where "raise_for_status (net log ?req) = None"
        "versions_of (body (net log ?req)) = Inr vs" by blast
      with Cons.prems c have
        "fetch_images net hs (log @ [?e]) (add_images org name vs ci) cs = (r, log')"
        by (simp add: Let_def)
      from Cons.IH [OF this] obtain new where
        "log' = (log @ [?e]) @ new" "\<forall>e\<in>set new. meth (fst e) = GET \<and> \<not> is_lookup (fst e)"
        by blast
      with e show ?thesis by (intro exI [of _ "?e # new"]) simp
    qed
  qed
qed

lemma prune_pruned:
  "prune net hs log recs = (None, log') \<Longrightarrow> \<exists>new. log' = log @ new \<and> pruned hs new recs"
proof (induction recs arbitrary: log)
  case Nil
  then show ?case by simp
next
  case (Cons r rs)
  from Cons.prems obtain v where v: "getitem r ''pkgver'' = Inr v"
    by (auto split: sum.splits)
  let ?req = "release_by_tag hs v"
  let ?resp = "net log ?req"
  let ?log1 = "log @ [(?req, ?resp)]"
  show ?case
  proof (cases "status_code ?resp = 404")
    case True
    with Cons.prems v have "prune net hs ?log1 rs = (None, log')"
      by (simp add: Let_def)
    from Cons.IH [OF this] obtain new where "log' = ?log1 @ new" "pruned hs new rs" by blast
    then show ?thesis using v True
      by (intro exI [of _ "(?req, ?resp) # new"]) simp
  next
    case False
    with Cons.prems v obtain rid where
      rid: "body ?resp = Release rid" and
      rest: "prune net hs (?log1 @ [(delete_release hs rid, net ?log1 (delete_release hs rid))]) rs
               = (None, log')"
      by (auto simp: Let_def release_id_Inr split: option.splits sum.splits)
    from Cons.IH [OF rest] obtain new where
      "log' = (?log1 @ [(delete_release hs rid, net ?log1 (delete_release hs rid))]) @ new"
      "pruned hs new rs" by blast
    then show ?thesis using v False rid
      by (intro exI [of _ "(?req, ?resp) # (delete_release hs rid, net ?log1 (delete_release hs rid)) # new"])
         simp
  qed
qed

lemma pruned_counts:
  "pruned hs es rs \<Longrightarrow>
     length [e \<leftarrow> es. meth (fst e) = GET] = length rs \<and>
     length [e \<leftarrow> es. meth (fst e) = DELETE]
       = length [e \<leftarrow> es. meth (fst e) = GET \<and> status_code (snd e) \<noteq> 404]"
proof (induction hs es rs rule: pruned.induct)
  case (1 hs es)
  then show ?case by simp
next
  case (2 hs r rest)
  then show ?case by simp
next
  case (3 hs q resp es r rest)
  then show ?case
    by (auto simp: release_by_tag_def delete_release_def
        split: sum.splits if_splits body.splits list.splits)
qed

lemma fetch_images_le:
  "fetch_images net hs log ci cs = (r, log') \<Longrightarrow> length log' \<le> length log + length cs"
proof (induction cs arbitrary: log ci)
  case Nil
  then show ?case by simp
next
  case (Cons c cs)
  show ?case
  proof (cases "\<exists>org name vs. split CHR ''/'' c = [org, name] \<and>
      raise_for_status (net log (versions_request hs org name)) = None \<and>
      versions_of (body (net log (versions_request hs org name))) = Inr vs")
    case True
    then obtain org name vs where
      c: "split CHR ''/'' c = [org, name]"
         "raise_for_status (net log (versions_request hs org name)) = None"
         "versions_of (body (net log (versions_request hs org name))) = Inr vs"
      by blast
    with Cons.prems have
      "fetch_images net hs
         (log @ [(versions_request hs org name, net log (versions_request hs org name))])
         (add_images org name vs ci) cs = (r, log')"
      by (simp add: Let_def)
    from Cons.IH [OF this] show ?thesis by simp
  next
    case False
    with Cons.prems have "length log' \<le> Suc (length log)"
      by (auto simp: Let_def split: list.splits option.splits sum.splits)
    then show ?thesis by simp
  qed
qed

lemma prune_started:
  "prune net hs log recs = (r, log') \<Longrightarrow>
     \<exists>new k. log' = log @ new \<and> k \<le> length recs \<and>
       list_all2 (\<lambda>q rcd. \<exists>v. getitem rcd ''pkgver'' = Inr v \<and> q = release_by_tag hs v)
         (map fst [e \<leftarrow> new. meth (fst e) = GET]) (take k recs) \<and>
       length [e \<leftarrow> new. meth (fst e) = DELETE]
         \<le> length [e \<leftarrow> new. meth (fst e) = GET \<and> status_code (snd e) \<noteq> 404] \<and>
       (r = None \<longrightarrow> k = length recs)"
proof (induction recs arbitrary: log)
  case Nil
  then show ?case by simp
next
  case (Cons rcd rs)
  show ?case
  proof (cases "getitem rcd ''pkgver''")
    case (Inl e)
    with Cons.prems have "log' = log" "r \<noteq> None" by auto
    then show ?thesis by (intro exI [of _ "[]"] exI [of _ 0]) simp
  next
    case (Inr v)
    let ?e = "(release_by_tag hs v, net log (release_by_tag hs v))"
    let ?log1 = "log @ [?e]"
    show ?thesis
    proof (cases "status_code (snd ?e) = 404")
      case True
      with Cons.prems Inr have "prune net hs ?log1 rs = (r, log')" by (simp add: Let_def)
      from Cons.IH [OF this] obtain new k where
        n: "log' = ?log1 @ new" "k \<le> length rs"
          "list_all2 (\<lambda>q rcd. \<exists>v. getitem rcd ''pkgver'' = Inr v \<and> q = release_by_tag hs v)
             (map fst [e \<leftarrow> new. meth (fst e) = GET]) (take k rs)"
          "length [e \<leftarrow> new. meth (fst e) = DELETE]
             \<le> length [e \<leftarrow> new. meth (fst e) = GET \<and> status_code (snd e) \<noteq> 404]"
          "r = None \<longrightarrow> k = length rs"
        by blast
      with Inr True show ?thesis
        by (intro exI [of _ "?e # new"] exI [of _ "Suc k"]) (simp add: request_meth)
    next
      case False
      note not404 = this
      show ?thesis
      proof (cases "\<exists>rid. raise_for_status (snd ?e) = None \<and> body (snd ?e) = Release rid")
        case False
        have "log' = ?log1 \<and> r \<noteq> None"
        proof (cases "raise_for_status (snd ?e)")
          case (Some err)
          with Cons.prems Inr not404 have "r = Some err" "log' = ?log1"
            by (simp_all add: Let_def)
          then show ?thesis by simp
        next
          case None
          with False obtain err where "release_id (body (snd ?e)) = Inl err"
            by (cases "release_id (body (snd ?e))") (auto simp: release_id_Inr)
          with Cons.prems Inr not404 None have "r = Some err" "log' = ?log1"
            by (simp_all add: Let_def)
          then show ?thesis by simp
        qed
        with Inr not404 show ?thesis
          by (intro exI [of _ "[?e]"] exI [of _ 1]) (auto simp: request_meth)
      next
        case True
        then obtain rid where
          ok: "raise_for_status (snd ?e) = None" "body (snd ?e) = Release rid" by blast
        let ?d = "(delete_release hs rid, net ?log1 (delete_release hs rid))"
        show ?thesis
        proof (cases "raise_for_status (snd ?d)")
          case (Some err)
          with Cons.prems Inr not404 ok have "log' = ?log1 @ [?d]" "r = Some err"
            by (simp_all add: Let_def)
          with Inr not404 show ?thesis
            by (intro exI [of _ "[?e, ?d]"] exI [of _ 1]) (auto simp: request_meth)
        next
          case None
          with Cons.prems Inr not404 ok have "prune net hs (?log1 @ [?d]) rs = (r, log')"
            by (simp add: Let_def)
          from Cons.IH [OF this] obtain new k where
            n: "log' = (?log1 @ [?d]) @ new" "k \<le> length rs"
              "list_all2 (\<lambda>q rcd. \<exists>v. getitem rcd ''pkgver'' = Inr v \<and> q = release_by_tag hs v)
                 (map fst [e \<leftarrow> new. meth (fst e) = GET]) (take k rs)"
              "length [e \<leftarrow> new. meth (fst e) = DELETE]
                 \<le> length [e \<leftarrow> new. meth (fst e) = GET \<and> status_code (snd e) \<noteq> 404]"
              "r = None \<longrightarrow> k = length rs"
            by blast
          with Inr not404 show ?thesis
            by (intro exI [of _ "?e # ?d # new"] exI [of _ "Suc k"]) (simp add: request_meth)
        qed
      qed
    qed
  qed
qed

lemma prune_started_k:
  assumes "prune net hs [] recs = (r, plog)"
  obtains k where "k \<le> length recs"
    "list_all2 (\<lambda>q rcd. \<exists>v. getitem rcd ''pkgver'' = Inr v \<and> q = release_by_tag hs v)
       (map fst [e \<leftarrow> plog. meth (fst e) = GET]) (take k recs)"
    "length [e \<leftarrow> plog. meth (fst e) = DELETE]
       \<le> length [e \<leftarrow> plog. meth (fst e) = GET \<and> status_code (snd e) \<noteq> 404]"
    "r = None \<longrightarrow> k = length recs"
  using prune_started [OF assms] by auto

subsection \<open>Fatal answers\<close>

lemma fatal_lookup_404: "status_code resp = 404 \<Longrightarrow> \<not> fatal (release_by_tag hs v, resp)"
  by (simp add: fatal_def is_lookup_release_by_tag)

lemma guarded_Nil: "guarded r []"
  by (simp add: guarded_def)

lemma guarded_single_error: "guarded (Some (HTTPError (status_code resp))) [(q, resp)]"
  by (simp add: guarded_def)

lemma guarded_single_clean: "\<not> fatal e \<Longrightarrow> guarded r [e]"
  by (simp add: guarded_def)

lemma guarded_Cons: "\<not> fatal e \<Longrightarrow> guarded r new \<Longrightarrow> guarded r (e # new)"
  by (auto simp: guarded_def)

lemma guarded_append: "\<forall>e\<in>set pre. \<not> fatal e \<Longrightarrow> guarded r new \<Longrightarrow> guarded r (pre @ new)"
  by (induction pre) (auto intro: guarded_Cons)

lemma guarded_None: "guarded None new \<Longrightarrow> \<forall>e\<in>set new. \<not> fatal e"
proof (cases "new = []")
  case True
  then show ?thesis by simp
next
  case False
  assume "guarded None new"
  with False have "\<forall>e\<in>set (butlast new). \<not> fatal e" "\<not> fatal (last new)"
    by (auto simp: guarded_def)
  moreover from False have "new = butlast new @ [last new]" by simp
  ultimately show ?thesis by (metis Un_iff empty_iff insert_iff list.set(1,2) set_append)
qed

lemma prune_guarded:
  "prune net hs log recs = (r, log') \<Longrightarrow> \<exists>new. log' = log @ new \<and> guarded r new"
proof (induction recs arbitrary: log)
  case Nil
  then show ?case by (simp add: guarded_Nil)
next
  case (Cons rcd rs)
  show ?case
  proof (cases "getitem rcd ''pkgver''")
    case (Inl e)
    with Cons.prems show ?thesis by (simp add: guarded_Nil)
  next
    case (Inr v)
    let ?e = "(release_by_tag hs v, net log (release_by_tag hs v))"
    let ?log1 = "log @ [?e]"
    show ?thesis
    proof (cases "status_code (snd ?e) = 404")
      case True
      with Cons.prems Inr have "prune net hs ?log1 rs = (r, log')" by (simp add: Let_def)
      from Cons.IH [OF this] obtain new where n: "log' = ?log1 @ new" "guarded r new" by blast
      have "\<not> fatal ?e" using True by (simp add: fatal_lookup_404)
      with n show ?thesis by (intro exI [of _ "?e # new"]) (simp add: guarded_Cons)
    next
      case False
      note not404 = this
      show ?thesis
      proof (cases "raise_for_status (snd ?e)")
        case (Some err)
        with Cons.prems Inr not404 have "r = Some err" "log' = ?log1" by (simp_all add: Let_def)
        with raise_for_status_Some [OF Some] show ?thesis
          by (intro exI [of _ "[?e]"]) (simp add: guarded_single_error)
      next
        case None
        then have clean: "\<not> fatal ?e" by (simp add: raise_for_status_None)
        show ?thesis
        proof (cases "release_id (body (snd ?e))")
          case (Inl err)
          with Cons.prems Inr not404 None have "log' = ?log1" by (simp add: Let_def)
          with clean show ?thesis by (intro exI [of _ "[?e]"]) (simp add: guarded_single_clean)
        next
          case (Inr rid)
          let ?d = "(delete_release hs rid, net ?log1 (delete_release hs rid))"
          show ?thesis
          proof (cases "raise_for_status (snd ?d)")
            case (Some err)
            with Cons.prems \<open>getitem rcd ''pkgver'' = Inr v\<close> not404 None Inr
            have "r = Some err" "log' = ?log1 @ [?d]" by (simp_all add: Let_def)
            with raise_for_status_Some [OF Some] clean show ?thesis
              by (intro exI [of _ "[?e, ?d]"]) (simp add: guarded_Cons guarded_single_error)
          next
            case dNone: None
            then have dclean: "\<not> fatal ?d" by (simp add: raise_for_status_None)
            from Cons.prems \<open>getitem rcd ''pkgver'' = Inr v\<close> not404 None Inr dNone
            have "prune net hs (?log1 @ [?d]) rs = (r, log')" by (simp add: Let_def)
            from Cons.IH [OF this] obtain new where
              n: "log' = (?log1 @ [?d]) @ new" "guarded r new" by blast
            with clean dclean show ?thesis
              by (intro exI [of _ "?e # ?d # new"]) (simp add: guarded_Cons)
          qed
        qed
      qed
    qed
  qed
qed

lemma fetch_guarded:
  "fetch_images net hs log ci cs = (r, log') \<Longrightarrow>
     \<exists>new. log' = log @ new \<and> guarded (raised r) new"
proof (induction cs arbitrary: log ci)
  case Nil
  then show ?case by (simp add: guarded_Nil)
next
  case (Cons c cs)
  show ?case
  proof (cases "\<exists>org name. split CHR ''/'' c = [org, name]")
    case False
    with Cons.prems have "log' = log" by (auto split: list.splits)
    then show ?thesis by (simp add: guarded_Nil)
  next
    case True
    then obtain org name where c: "split CHR ''/'' c = [org, name]" by blast
    let ?e = "(versions_request hs org name, net log (versions_request hs org name))"
    show ?thesis
    proof (cases "raise_for_status (snd ?e)")
      case (Some err)
      with Cons.prems c have "r = Inl err" "log' = log @ [?e]" by (simp_all add: Let_def)
      with raise_for_status_Some [OF Some] show ?thesis
        by (intro exI [of _ "[?e]"]) (simp add: raised_def guarded_single_error)
    next
      case None
      then have clean: "\<not> fatal ?e" by (simp add: raise_for_status_None)
      show ?thesis
      proof (cases "versions_of (body (snd ?e))")
        case (Inl err)
        with Cons.prems c None have "log' = log @ [?e]" by (simp add: Let_def)
        with clean show ?thesis by (intro exI [of _ "[?e]"]) (simp add: guarded_single_clean)
      next
        case (Inr vs)
        with Cons.prems c None have
          "fetch_images net hs (log @ [?e]) (add_images org name vs ci) cs = (r, log')"
          by (simp add: Let_def)
        from Cons.IH [OF this] obtain new where
          "log' = (log @ [?e]) @ new" "guarded (raised r) new" by blast
        with clean show ?thesis by (intro exI [of _ "?e # new"]) (simp add: guarded_Cons)
      qed
    qed
  qed
qed

lemma main_guarded:
  assumes "main tok a file out pd net now = (outcome, w)"
  shows "guarded outcome (exchanges w) \<and>
         ((\<exists>e\<in>set (exchanges w). fatal e) \<longrightarrow> html_file w = Untouched \<and> json_file w = None)"
proof (cases "\<exists>token loaded records.
    tok = Some token \<and> load_records file = Inr loaded \<and> build_new_record pd a loaded = Inr records")
  case False
  with assms have "exchanges w = []"
    by (auto simp: main_def before_writing_def split: option.splits sum.splits)
  then show ?thesis by (simp add: guarded_Nil)
next
  case True
  then obtain token loaded records where
    s: "tok = Some token" "load_records file = Inr loaded"
       "build_new_record pd a loaded = Inr records" by blast
  obtain pr plog where
    p: "prune net (make_headers token) [] (slice_until_last RETAIN records) = (pr, plog)"
    by (cases "prune net (make_headers token) [] (slice_until_last RETAIN records)")
  from prune_guarded [OF p] have pg: "guarded pr plog" by simp
  show ?thesis
  proof (cases pr)
    case (Some e)
    with assms s p have "outcome = Some e" "w = before_writing plog"
      by (simp_all add: main_def)
    with pg Some show ?thesis by (simp add: before_writing_def)
  next
    case None
    with pg have pclean: "\<forall>e\<in>set plog. \<not> fatal e" by (simp add: guarded_None)
    obtain fr flog where
      f: "fetch_images net (make_headers token) plog Map.empty CONTAINERS = (fr, flog)"
      by (cases "fetch_images net (make_headers token) plog Map.empty CONTAINERS")
    from fetch_guarded [OF f] obtain new where
      n: "flog = plog @ new" "guarded (raised fr) new" by blast
    from assms s p None f have ex: "exchanges w = flog"
      by (auto simp: main_def before_writing_def split: sum.splits if_splits)
    show ?thesis
    proof (cases fr)
      case (Inl e)
      with assms s p None f have "outcome = Some e" "w = before_writing flog"
        by (simp_all add: main_def)
      with n pclean Inl show ?thesis
        by (simp add: before_writing_def raised_def guarded_append)
    next
      case (Inr ci)
      with n have "\<forall>e\<in>set new. \<not> fatal e" by (simp add: raised_def guarded_None)
      with pclean n ex have "\<forall>e\<in>set (exchanges w). \<not> fatal e" by auto
      then show ?thesis by (auto simp: guarded_def dest: in_set_butlastD)
    qed
  qed
qed

subsection \<open>Sample runs\<close>

lemma sample_empty_run:
  "fst (main (Some ''tok'') no_args (Builds []) writable demo_date demo_net 0) = None \<and>
   json_file (snd (main (Some ''tok'') no_args (Builds []) writable demo_date demo_net 0)) = Some ([], 0)"
  by code_simp

lemma sample_run:
  "fst (main (Some ''tok'') demo_args (Builds [demo_record]) writable demo_date demo_net 0) = None \<and>
   json_file (snd (main (Some ''tok'') demo_args (Builds [demo_record]) writable demo_date demo_net 0)) =
     Some ([demo_record, demo_new], 0)"
  by code_simp

lemma sample_run_main:
  "main (Some ''tok'') demo_args (Builds [demo_record]) writable demo_date demo_net 0
     = (None, snd (main (Some ''tok'') demo_args (Builds [demo_record]) writable demo_date demo_net 0))"
  using sample_run by (simp add: prod_eq_iff)

lemma make_row_demo:
  "make_row None demo_record = Inr demo_row"
  "make_row (Some demo_record) demo_record = Inr demo_row"
  by (simp_all add: make_row_def bind_def getitem_def prev_def get_win32_def demo_record_def
      new_record_def demo_row_def)

lemma make_rows_demo:
  "p = None \<or> p = Some demo_record \<Longrightarrow>
     make_rows p (replicate n demo_record) = Inr (replicate n demo_row)"
  by (induction n arbitrary: p) (auto simp: make_row_demo bind_def)

lemma builder_link_demo:
  "\<exists>h. builder_link ci (JStr demo_linux) = Inr h"
  "\<exists>h. builder_link ci (JStr demo_windows) = Inr h"
  by (simp_all add: builder_link_def bind_def demo_linux_def demo_windows_def)

lemma render_row_demo: "\<exists>h. render_row ci demo_row = Inr h"
  using builder_link_demo [of ci]
  by (auto simp: render_row_def bind_def demo_row_def revision_link_def plain_revision_def)

lemma template_demo: "\<exists>html. template ci RETAIN (rev (replicate n demo_row)) = Inr html"
proof -
  from render_row_demo obtain h where "render_row ci demo_row = Inr h" by blast
  from render_rows_replicate [OF this] obtain b where
    "render_rows ci (replicate n demo_row) = Inr b" by blast
  then show ?thesis by (simp add: template_def bind_def)
qed

lemma demo_run:
  assumes "prune net (make_headers token) [] (replicate (n - RETAIN) demo_record) = (None, log)"
    and "fetch_images net (make_headers token) log Map.empty CONTAINERS = (Inr ci, log')"
  shows "\<exists>html. template ci RETAIN (replicate (min RETAIN n) demo_row) = Inr html \<and>
     main (Some token) no_args (Builds (replicate n demo_record)) writable pd net now =
       (None, \<lparr>exchanges = log', html_file = Complete (html @ nl),
               json_file = Some (replicate (min RETAIN n) demo_record, now)\<rparr>)"
proof -
  from template_demo [of ci "min RETAIN n"] obtain html where
    t: "template ci RETAIN (rev (replicate (min RETAIN n) demo_row)) = Inr html" by blast
  have "main (Some token) no_args (Builds (replicate n demo_record)) writable pd net now =
       (None, \<lparr>exchanges = log', html_file = Complete (html @ nl),
               json_file = Some (slice_last RETAIN (replicate n demo_record), now)\<rparr>)"
    by (rule main_reaches_end [where loaded = "replicate n demo_record" and rows = "replicate (min RETAIN n) demo_row"])
       (use assms t in
         \<open>simp_all add: build_no_args slice_replicate make_rows_demo writable_def\<close>)
  with t show ?thesis by (auto simp: slice_replicate)
qed

lemma getitem_demo_pkgver: "getitem demo_record ''pkgver'' = Inr (JStr ''20230101-nightly'')"
  by (simp add: getitem_def demo_record_def new_record_def)

lemma fetch_demo:
  "fetch_images demo_net hs log Map.empty CONTAINERS =
     (Inr [demo_linux \<mapsto> ''https://example.org/l1''],
      log @ [(versions_request hs ''openslide'' ''linux-builder'',
              \<lparr>status_code = 200,
               body = Versions [(''sha256:0123456789abcdef'', ''https://example.org/l1'')]\<rparr>),
             (versions_request hs ''openslide'' ''winbuild-builder'',
              \<lparr>status_code = 200, body = Versions []\<rparr>)])"
  by (simp add: CONTAINERS_def demo_net_def is_lookup_def versions_answer_def Let_def
      versions_request_def raise_for_status_def demo_linux_def REPO_def)


lemma fetch_gone:
  "fetch_images gone_net hs log Map.empty CONTAINERS =
     (Inr [demo_linux \<mapsto> ''https://example.org/l1''],
      log @ [(versions_request hs ''openslide'' ''linux-builder'',
              \<lparr>status_code = 200,
               body = Versions [(''sha256:0123456789abcdef'', ''https://example.org/l1'')]\<rparr>),
             (versions_request hs ''openslide'' ''winbuild-builder'',
              \<lparr>status_code = 200, body = Versions []\<rparr>)])"
  by (simp add: CONTAINERS_def gone_net_def is_lookup_def versions_answer_def Let_def
      versions_request_def raise_for_status_def demo_linux_def REPO_def)

lemma prune_demo:
  "prune demo_net hs [] [demo_record] =
     (None, [(release_by_tag hs (JStr ''20230101-nightly''), \<lparr>status_code = 200, body = Release 77\<rparr>),
             (delete_release hs 77, \<lparr>status_code = 204, body = Unusable\<rparr>)])"
  by (simp add: getitem_demo_pkgver demo_net_def request_meth is_lookup_release_by_tag
      raise_for_status_def Let_def)

lemma prune_gone:
  "prune gone_net hs [] [demo_record] =
     (None, [(release_by_tag hs (JStr ''20230101-nightly''),
              \<lparr>status_code = 404, body = Unusable\<rparr>)])"
  by (simp add: getitem_demo_pkgver gone_net_def request_meth is_lookup_release_by_tag Let_def)

lemma gone_run:
  "\<exists>html. main (Some ''tok'') no_args (Builds (replicate 31 demo_record)) writable demo_date gone_net 0 =
     (None,
      \<lparr>exchanges =
         [(release_by_tag (make_headers ''tok'') (JStr ''20230101-nightly''),
           \<lparr>status_code = 404, body = Unusable\<rparr>),
          (versions_request (make_headers ''tok'') ''openslide'' ''linux-builder'',
           \<lparr>status_code = 200,
            body = Versions [(''sha256:0123456789abcdef'', ''https://example.org/l1'')]\<rparr>),
          (versions_request (make_headers ''tok'') ''openslide'' ''winbuild-builder'',
           \<lparr>status_code = 200, body = Versions []\<rparr>)],
       html_file = Complete html,
       json_file = Some (replicate 30 demo_record, 0)\<rparr>)"
proof -
  have p: "prune gone_net (make_headers ''tok'') [] (replicate (31 - RETAIN) demo_record)
      = (None, [(release_by_tag (make_headers ''tok'') (JStr ''20230101-nightly''),
                 \<lparr>status_code = 404, body = Unusable\<rparr>)])"
    using prune_gone by (simp add: RETAIN_def)
  from demo_run [OF p fetch_gone, where pd = demo_date and now = 0] show ?thesis
    by (auto simp: RETAIN_def)
qed

lemma full_run:
  "\<exists>html. main (Some ''tok'') no_args (Builds (replicate 31 demo_record)) writable demo_date demo_net 0 =
     (None,
      \<lparr>exchanges =
         [(release_by_tag (make_headers ''tok'') (JStr ''20230101-nightly''),
           \<lparr>status_code = 200, body = Release 77\<rparr>),
          (delete_release (make_headers ''tok'') 77, \<lparr>status_code = 204, body = Unusable\<rparr>),
          (versions_request (make_headers ''tok'') ''openslide'' ''linux-builder'',
           \<lparr>status_code = 200,
            body = Versions [(''sha256:0123456789abcdef'', ''https://example.org/l1'')]\<rparr>),
          (versions_request (make_headers ''tok'') ''openslide'' ''winbuild-builder'',
           \<lparr>status_code = 200, body = Versions []\<rparr>)],
       html_file = Complete html,
       json_file = Some (replicate 30 demo_record, 0)\<rparr>)"
proof -
  have p: "prune demo_net (make_headers ''tok'') [] (replicate (31 - RETAIN) demo_record)
      = (None, [(release_by_tag (make_headers ''tok'') (JStr ''20230101-nightly''),
                 \<lparr>status_code = 200, body = Release 77\<rparr>),
                (delete_release (make_headers ''tok'') 77,
                 \<lparr>status_code = 204, body = Unusable\<rparr>)])"
    using prune_demo by (simp add: RETAIN_def)
  from demo_run [OF p fetch_demo, where pd = demo_date and now = 0] show ?thesis
    by (auto simp: RETAIN_def)
qed

lemma broken_run:
  "main (Some ''tok'') no_args (Builds (replicate 31 demo_record)) writable demo_date broken_net 0 =
     (Some (HTTPError 500),
      \<lparr>exchanges = [(release_by_tag (make_headers ''tok'') (JStr ''20230101-nightly''),
                     \<lparr>status_code = 500, body = Unusable\<rparr>)],
       html_file = Untouched, json_file = None\<rparr>)"
  by (simp add: main_def build_no_args slice_replicate RETAIN_def getitem_demo_pkgver
      broken_net_def raise_for_status_def before_writing_def Let_def)

lemma prune_flaky:
  "prune flaky_net hs [] [demo_record] =
     (None, [(release_by_tag hs (JStr ''20230101-nightly''), \<lparr>status_code = 200, body = Release 77\<rparr>),
             (delete_release hs 77, \<lparr>status_code = 204, body = Unusable\<rparr>)])"
  by (simp add: getitem_demo_pkgver flaky_net_def request_meth is_lookup_release_by_tag
      raise_for_status_def Let_def)

lemma flaky_run:
  "main (Some ''tok'') no_args (Builds (replicate 31 demo_record)) writable demo_date flaky_net 0 =
     (Some (HTTPError 500),
      \<lparr>exchanges =
         [(release_by_tag (make_headers ''tok'') (JStr ''20230101-nightly''),
           \<lparr>status_code = 200, body = Release 77\<rparr>),
          (delete_release (make_headers ''tok'') 77, \<lparr>status_code = 204, body = Unusable\<rparr>),
          (versions_request (make_headers ''tok'') ''openslide'' ''linux-builder'',
           \<lparr>status_code = 500, body = Unusable\<rparr>)],
       html_file = Untouched, json_file = None\<rparr>)"
  by (simp add: main_def build_no_args slice_replicate RETAIN_def getitem_demo_pkgver
      flaky_net_def request_meth is_lookup_release_by_tag is_lookup_versions_request
      raise_for_status_def before_writing_def Let_def CONTAINERS_def)
     (simp add: versions_request_def)

lemma make_row_demo_new: "make_row (Some demo_record) demo_new = Inr demo_new_row"
  by (simp add: make_row_def bind_def getitem_def prev_def get_win32_def demo_record_def
      demo_new_def new_record_def demo_new_row_def)

lemma make_rows_after_demo:
  "make_rows (Some demo_record) (replicate n demo_record @ [demo_new])
     = Inr (replicate n demo_row @ [demo_new_row])"
  by (induction n) (simp_all add: make_row_demo make_row_demo_new bind_def)

lemma make_rows_demo_new:
  "make_rows None (replicate (Suc n) demo_record @ [demo_new])
     = Inr (replicate (Suc n) demo_row @ [demo_new_row])"
  by (simp add: make_row_demo make_rows_after_demo bind_def)

lemma render_row_demo_new: "\<exists>h. render_row ci demo_new_row = Inr h"
  using builder_link_demo [of ci]
  by (auto simp: render_row_def bind_def demo_new_row_def revision_link_def plain_revision_def)

lemma build_demo_args:
  "build_new_record demo_date demo_args records = Inr (records @ [demo_new])"
  by (simp add: build_new_record_def demo_args_def demo_date_def demo_new_def
      demo_linux_def demo_windows_def)

lemma prune_demo_two:
  "prune demo_net hs [] [demo_record, demo_record] =
     (None,
      [(release_by_tag hs (JStr ''20230101-nightly''), \<lparr>status_code = 200, body = Release 77\<rparr>),
       (delete_release hs 77, \<lparr>status_code = 204, body = Unusable\<rparr>),
       (release_by_tag hs (JStr ''20230101-nightly''), \<lparr>status_code = 200, body = Release 77\<rparr>),
       (delete_release hs 77, \<lparr>status_code = 204, body = Unusable\<rparr>)])"
  by (simp add: getitem_demo_pkgver demo_net_def request_meth is_lookup_release_by_tag
      raise_for_status_def Let_def)

lemma append_run:
  "fst (main (Some ''tok'') demo_args (Builds (replicate 31 demo_record)) writable demo_date
     demo_net 0) = None"
proof -
  let ?records = "replicate 31 demo_record @ [demo_new]"
  have u: "slice_until_last RETAIN ?records = [demo_record, demo_record]"
    by (simp add: slice_until_last_def RETAIN_def numeral_2_eq_2)
  have l: "slice_last RETAIN ?records = replicate (Suc 28) demo_record @ [demo_new]"
    by (simp add: slice_last_def RETAIN_def)
  have "\<forall>r\<in>set (rev (replicate (Suc 28) demo_row @ [demo_new_row])).
          \<exists>h. render_row [demo_linux \<mapsto> ''https://example.org/l1''] r = Inr h"
    using render_row_demo render_row_demo_new by auto
  from render_rows_all [OF this] obtain html where
    "template [demo_linux \<mapsto> ''https://example.org/l1''] RETAIN
       (rev (replicate (Suc 28) demo_row @ [demo_new_row])) = Inr html"
    by (auto simp: template_def bind_def)
  then have "main (Some ''tok'') demo_args (Builds (replicate 31 demo_record)) writable
      demo_date demo_net 0 =
     (None, \<lparr>exchanges = snd (fetch_images demo_net (make_headers ''tok'')
                 (snd (prune demo_net (make_headers ''tok'') [] [demo_record, demo_record]))
                 Map.empty CONTAINERS),
             html_file = Complete (html @ nl),
             json_file = Some (slice_last RETAIN ?records, 0)\<rparr>)"
    by (intro main_reaches_end [where loaded = "replicate 31 demo_record"
          and rows = "replicate (Suc 28) demo_row @ [demo_new_row]"])
       (simp_all add: build_demo_args u l prune_demo_two fetch_demo make_rows_demo_new
          make_rows_demo_new [of 28, simplified] writable_def
          del: prune.simps fetch_images.simps)
  then show ?thesis by simp
qed

section \<open>The claims\<close>

subsection \<open>The retention limit\<close>

text \<open>
  C1. For every list of records, \<open>records[-RETAIN:]\<close> holds the last
  \<open>min(RETAIN, len(records))\<close> of them, with \<open>RETAIN = 30\<close>, and together with
  \<open>records[:-RETAIN]\<close> makes up the list. Whenever a run writes the state file, the list
  written is that slice of the loaded list with the optional new record: at most 30
  records, the most recent ones.
\<close>

theorem retention_limit:
  "RETAIN = 30 \<and>
   length (slice_last RETAIN records) = min RETAIN (length records) \<and>
   slice_until_last RETAIN records @ slice_last RETAIN records = records \<and>
   (main tok a file out parse_date net now = (outcome, w) \<and> json_file w = Some (kept, t) \<longrightarrow>
      length kept \<le> RETAIN \<and>
      (\<exists>loaded rs older.
         load_records file = Inr loaded \<and>
         build_new_record parse_date a loaded = Inr rs \<and>
         kept = slice_last RETAIN rs \<and> rs = older @ kept))"
proof (intro conjI impI)
  show "RETAIN = 30" by (simp add: RETAIN_def)
  show "length (slice_last RETAIN records) = min RETAIN (length records)"
    by (rule slice_last_length)
  show "slice_until_last RETAIN records @ slice_last RETAIN records = records"
    by (rule slice_parts)
next
  assume m: "main tok a file out parse_date net now = (outcome, w) \<and> json_file w = Some (kept, t)"
  then obtain token loaded rs where
    l: "load_records file = Inr loaded" and
    b: "build_new_record parse_date a loaded = Inr rs" and
    k: "kept = slice_last RETAIN rs"
    by (auto elim: main_json_written)
  show "length kept \<le> RETAIN"
    using k by (simp add: slice_last_length)
  have "rs = slice_until_last RETAIN rs @ kept"
    using k by (simp add: slice_parts)
  with l b k show "\<exists>loaded rs older.
         load_records file = Inr loaded \<and>
         build_new_record parse_date a loaded = Inr rs \<and>
         kept = slice_last RETAIN rs \<and> rs = older @ kept"
    by blast
qed

theorem retention_limit_witness:
  "json_file (snd (main (Some ''tok'') demo_args (Builds [demo_record]) writable demo_date demo_net 0))
     = Some ([demo_record, demo_new], 0) \<and>
   length [demo_record, demo_new] \<le> RETAIN \<and>
   length (slice_last RETAIN (replicate 31 demo_record)) = 30"
  using retention_limit
      [of "replicate 31 demo_record" "Some ''tok''" demo_args "Builds [demo_record]" writable
          demo_date demo_net 0 None
          "snd (main (Some ''tok'') demo_args (Builds [demo_record]) writable demo_date demo_net 0)"
          "[demo_record, demo_new]" 0]
    sample_run sample_run_main
  by simp

subsection \<open>What the page depends on\<close>




subsection \<open>A missing state file\<close>

text \<open>
  C3. When opening the state file raises IOError, the record list is empty and the run
  goes on exactly as it does on a state file with an empty list of builds, whatever the
  other inputs are; a state file written by such a run holds just what the append step
  makes of the empty list: nothing, or the one record of this run.
\<close>

theorem missing_state_file:
  "load_records OpenFails = Inr [] \<and>
   main tok a OpenFails out parse_date net now
     = main tok a (Builds []) out parse_date net now \<and>
   (main tok a OpenFails out parse_date net now = (outcome, w) \<and>
    json_file w = Some (kept, t) \<longrightarrow>
      build_new_record parse_date a [] = Inr kept \<and> length kept \<le> 1)"
proof (intro conjI impI)
  show "load_records OpenFails = Inr []" by simp
  show "main tok a OpenFails out parse_date net now
          = main tok a (Builds []) out parse_date net now"
    by (cases tok) (simp_all add: main_def)
next
  assume "main tok a OpenFails out parse_date net now = (outcome, w) \<and>
          json_file w = Some (kept, t)"
  then obtain records where
    b: "build_new_record parse_date a [] = Inr records" and
    k: "kept = slice_last RETAIN records"
    by (auto elim: main_json_written)
  from build_new_record_cases [OF b] have "length records \<le> 1" by auto
  with k have "kept = records" by (simp add: slice_last_def RETAIN_def)
  with b \<open>length records \<le> 1\<close>
  show "build_new_record parse_date a [] = Inr kept" and "length kept \<le> 1" by simp_all
qed

theorem missing_state_file_witness:
  "fst (main (Some ''tok'') no_args OpenFails writable demo_date demo_net 0) = None \<and>
   json_file (snd (main (Some ''tok'') no_args OpenFails writable demo_date demo_net 0))
     = Some ([], 0) \<and>
   fst (main (Some ''tok'') no_args OpenFails missing_dir demo_date demo_net 0)
     = Some OSError \<and>
   html_file (snd (main (Some ''tok'') no_args OpenFails missing_dir demo_date demo_net 0))
     = Untouched \<and>
   json_file (snd (main (Some ''tok'') no_args OpenFails missing_dir demo_date demo_net 0))
     = None"
proof -
  have "main (Some ''tok'') no_args (Builds []) missing_dir demo_date demo_net 0
      = (Some OSError,
         before_writing (snd (fetch_images demo_net (make_headers ''tok'') [] Map.empty
           CONTAINERS)))"
    by (simp add: main_def build_no_args slice_until_last_def slice_last_def fetch_demo
        missing_dir_def)
  then show ?thesis
    using missing_state_file
        [of "Some ''tok''" no_args writable demo_date demo_net 0 None
           "snd (main (Some ''tok'') no_args OpenFails writable demo_date demo_net 0)" "[]" 0]
      missing_state_file [of "Some ''tok''" no_args missing_dir demo_date demo_net 0]
      sample_empty_run
    by (simp add: before_writing_def)
qed

subsection \<open>Appending the new record\<close>

text \<open>
  C4, as the claim states it, fails when \<open>--pkgver\<close> is supplied with an empty value:
  the test \<open>if args.pkgver\<close> is false for the empty string, so with all five companions
  supplied nothing is appended and nothing is raised.
\<close>

theorem empty_pkgver_appends_nothing:
  "build_new_record demo_date (demo_args\<lparr>pkgver := Some ''''\<rparr>) [demo_record]
     = Inr [demo_record]"
  by (simp add: build_new_record_def)

text \<open>
  C4, amended. When \<open>--pkgver\<close> and the five companions are supplied and not empty and
  the text of the version before its first \<open>-\<close> parses as a date, the step returns the
  loaded list with exactly one record appended at its end, which carries the version, the
  date, both builder references and the three commit IDs. When \<open>--pkgver\<close> is absent or
  empty the list is returned unchanged.
\<close>

theorem append_new_record:
  "(pkgver a = Some v \<and> v \<noteq> [] \<and> linux_builder a = Some lb \<and> lb \<noteq> [] \<and>
    windows_builder a = Some wb \<and> wb \<noteq> [] \<and> openslide a = Some os \<and> os \<noteq> [] \<and>
    java a = Some jv \<and> jv \<noteq> [] \<and> winbuild a = Some wv \<and> wv \<noteq> [] \<and>
    split CHR ''-'' v = p # ps \<and> parse_date p = Some d
    \<longrightarrow> build_new_record parse_date a records
          = Inr (records @ [new_record v d lb wb os jv wv]) \<and>
        getitem (new_record v d lb wb os jv wv) ''pkgver'' = Inr (JStr v) \<and>
        getitem (new_record v d lb wb os jv wv) ''date'' = Inr (JStr d) \<and>
        getitem (new_record v d lb wb os jv wv) ''linux-builder'' = Inr (JStr lb) \<and>
        getitem (new_record v d lb wb os jv wv) ''windows-builder'' = Inr (JStr wb) \<and>
        getitem (new_record v d lb wb os jv wv) ''openslide'' = Inr (JStr os) \<and>
        getitem (new_record v d lb wb os jv wv) ''openslide-java'' = Inr (JStr jv) \<and>
        getitem (new_record v d lb wb os jv wv) ''openslide-winbuild'' = Inr (JStr wv)) \<and>
   (\<not> given (pkgver a) \<longrightarrow> build_new_record parse_date a records = Inr records)"
  by (simp add: build_new_record_def new_record_def getitem_def)

theorem append_new_record_witness:
  "build_new_record demo_date demo_args [demo_record] = Inr ([demo_record] @ [demo_new]) \<and>
   build_new_record demo_date no_args [demo_record] = Inr [demo_record]"
  using append_new_record
    [of demo_args "''20230102-nightly''" demo_linux demo_windows "''aaaaaaaabbbb''"
       "''ccccccccdddd''" "''eeeeeeeeffff''" "''20230102''" "[''nightly'']" demo_date
       "''2023-01-02''" "[demo_record]"]
    append_new_record [of no_args _ _ _ _ _ _ _ _ demo_date _ "[demo_record]"]
  by (simp add: demo_args_def no_args_def demo_date_def demo_new_def demo_linux_def
      demo_windows_def)

subsection \<open>Pruning\<close>

text \<open>
  C5, as the claim states it, fails: with 31 stored records there is one expired record,
  and when the lookup of its release is answered 404 the run makes no delete request.
\<close>

theorem gone_release_not_deleted:
  "slice_until_last RETAIN (replicate 31 demo_record) = [demo_record] \<and>
   fst (main (Some ''tok'') no_args (Builds (replicate 31 demo_record)) writable demo_date gone_net 0)
     = None \<and>
   map (meth \<circ> fst)
     (exchanges (snd (main (Some ''tok'') no_args (Builds (replicate 31 demo_record)) writable
        demo_date gone_net 0)))
     = [GET, GET, GET]"
  using gone_run
  by (auto simp: slice_replicate RETAIN_def request_meth versions_request_def)

text \<open>
  C5, amended. In every run that gets to the prune step, the exchanges are those of the
  prune step followed by those of the package-version requests. The prune step looks up,
  in order, the releases tagged with the versions of the records before the last
  \<open>RETAIN\<close>, oldest first, and never makes more deletes than lookups that were not
  answered 404. When its requests raise nothing, it has looked up every such record and
  has deleted, directly after each lookup not answered 404, the release that the lookup
  returned, and nothing after a lookup answered 404. When one of its requests raises, the
  run ends there with that exception. The records among the newest \<open>RETAIN\<close> get no
  request.
\<close>

theorem prune_requests:
  assumes "main tok a file out parse_date net now = (outcome, w)"
    and "tok = Some token" and "load_records file = Inr loaded"
    and "build_new_record parse_date a loaded = Inr records"
  shows "\<exists>pr plog flog k.
     prune net (make_headers token) [] (take (length records - 30) records) = (pr, plog) \<and>
     exchanges w = plog @ flog \<and>
     (\<forall>e\<in>set flog. meth (fst e) = GET \<and> \<not> is_lookup (fst e)) \<and>
     length flog \<le> length CONTAINERS \<and>
     (length records \<le> 30 \<longrightarrow> plog = []) \<and>
     k \<le> length records - 30 \<and>
     list_all2
       (\<lambda>q r. \<exists>v. getitem r ''pkgver'' = Inr v \<and> q = release_by_tag (make_headers token) v)
       (map fst [e \<leftarrow> plog. meth (fst e) = GET]) (take k records) \<and>
     length [e \<leftarrow> plog. meth (fst e) = DELETE]
       \<le> length [e \<leftarrow> plog. meth (fst e) = GET \<and> status_code (snd e) \<noteq> 404] \<and>
     (pr = None \<longrightarrow>
        pruned (make_headers token) plog (take (length records - 30) records) \<and>
        k = length records - 30 \<and>
        length [e \<leftarrow> plog. meth (fst e) = GET] = length records - 30 \<and>
        length [e \<leftarrow> plog. meth (fst e) = DELETE]
          = length [e \<leftarrow> plog. meth (fst e) = GET \<and> status_code (snd e) \<noteq> 404]) \<and>
     (pr \<noteq> None \<longrightarrow> outcome = pr \<and> flog = []) \<and>
     (outcome = None \<longrightarrow> pr = None \<and> length flog = length CONTAINERS)"
proof -
  let ?hs = "make_headers token"
  let ?expired = "take (length records - 30) records"
  have sl: "slice_until_last RETAIN records = ?expired"
    by (simp add: slice_until_last_def RETAIN_def)
  obtain pr plog where p: "prune net ?hs [] ?expired = (pr, plog)"
    by (cases "prune net ?hs [] ?expired")
  from p obtain k where
    k: "k \<le> length ?expired"
      "list_all2 (\<lambda>q r. \<exists>v. getitem r ''pkgver'' = Inr v \<and> q = release_by_tag ?hs v)
         (map fst [e \<leftarrow> plog. meth (fst e) = GET]) (take k ?expired)"
      "length [e \<leftarrow> plog. meth (fst e) = DELETE]
         \<le> length [e \<leftarrow> plog. meth (fst e) = GET \<and> status_code (snd e) \<noteq> 404]"
      "pr = None \<longrightarrow> k = length ?expired"
    by (rule prune_started_k)
  from k(1) have k': "k \<le> length records - 30" by simp
  with k(2) have lk:
    "list_all2 (\<lambda>q r. \<exists>v. getitem r ''pkgver'' = Inr v \<and> q = release_by_tag ?hs v)
       (map fst [e \<leftarrow> plog. meth (fst e) = GET]) (take k records)"
    by (simp add: min_def)
  have empty: "length records \<le> 30 \<longrightarrow> plog = []"
  proof
    assume "length records \<le> 30"
    then have "?expired = []" by simp
    with p show "plog = []" by simp
  qed
  have full: "pr = None \<longrightarrow>
        pruned ?hs plog ?expired \<and> k = length records - 30 \<and>
        length [e \<leftarrow> plog. meth (fst e) = GET] = length records - 30 \<and>
        length [e \<leftarrow> plog. meth (fst e) = DELETE]
          = length [e \<leftarrow> plog. meth (fst e) = GET \<and> status_code (snd e) \<noteq> 404]"
  proof
    assume n: "pr = None"
    with p prune_pruned [of net ?hs "[]" ?expired plog]
    have pd: "pruned ?hs plog ?expired" by simp
    from pruned_counts [OF pd] n k(4) pd show
      "pruned ?hs plog ?expired \<and> k = length records - 30 \<and>
        length [e \<leftarrow> plog. meth (fst e) = GET] = length records - 30 \<and>
        length [e \<leftarrow> plog. meth (fst e) = DELETE]
          = length [e \<leftarrow> plog. meth (fst e) = GET \<and> status_code (snd e) \<noteq> 404]"
      by simp
  qed
  have rest: "\<exists>flog. exchanges w = plog @ flog \<and>
     (\<forall>e\<in>set flog. meth (fst e) = GET \<and> \<not> is_lookup (fst e)) \<and>
     length flog \<le> length CONTAINERS \<and>
     (pr \<noteq> None \<longrightarrow> outcome = pr \<and> flog = []) \<and>
     (outcome = None \<longrightarrow> pr = None \<and> length flog = length CONTAINERS)"
  proof (cases pr)
    case (Some e)
    with assms p sl have "outcome = Some e" "w = before_writing plog"
      by (simp_all add: main_def)
    with Some show ?thesis by (intro exI [of _ "[]"]) (simp add: before_writing_def)
  next
    case None
    obtain fr flog' where
      f: "fetch_images net ?hs plog Map.empty CONTAINERS = (fr, flog')"
      by (cases "fetch_images net ?hs plog Map.empty CONTAINERS")
    from fetch_images_gets [OF f] obtain flog where
      fl: "flog' = plog @ flog" "\<forall>e\<in>set flog. meth (fst e) = GET \<and> \<not> is_lookup (fst e)"
      by blast
    from fetch_images_le [OF f] fl(1) have le: "length flog \<le> length CONTAINERS" by simp
    from assms p sl None f have ex: "exchanges w = flog'"
      by (auto simp: main_def before_writing_def split: sum.splits if_splits)
    have "outcome = None \<longrightarrow> length flog = length CONTAINERS"
    proof
      assume "outcome = None"
      with assms(1) have "main tok a file out parse_date net now = (None, w)" by simp
      then obtain token' loaded' records' log' ci where
        m: "tok = Some token'" "load_records file = Inr loaded'"
          "build_new_record parse_date a loaded' = Inr records'"
          "prune net (make_headers token') [] (slice_until_last RETAIN records') = (None, log')"
          "fetch_images net (make_headers token') log' Map.empty CONTAINERS
             = (Inr ci, exchanges w)"
        by (rule main_finished)
      with assms(2-4) p sl have "log' = plog" "token' = token" by simp_all
      with m(5) have "fetch_images net ?hs plog Map.empty CONTAINERS = (Inr ci, exchanges w)"
        by simp
      from fetch_images_log [OF this] obtain new where
        "exchanges w = plog @ new" "length new = length CONTAINERS" by blast
      with ex fl(1) show "length flog = length CONTAINERS" by simp
    qed
    with None ex fl le show ?thesis by (intro exI [of _ flog]) simp
  qed
  then obtain flog where
    "exchanges w = plog @ flog"
    "\<forall>e\<in>set flog. meth (fst e) = GET \<and> \<not> is_lookup (fst e)"
    "length flog \<le> length CONTAINERS"
    "pr \<noteq> None \<longrightarrow> outcome = pr \<and> flog = []"
    "outcome = None \<longrightarrow> pr = None \<and> length flog = length CONTAINERS"
    by blast
  with p k' lk k(3) empty full show ?thesis
    by - (rule exI [of _ pr], rule exI [of _ plog], rule exI [of _ flog], rule exI [of _ k],
          intro conjI, assumption+)
qed

theorem prune_requests_witness:
  "(\<exists>plog flog.
      exchanges (snd (main (Some ''tok'') no_args (Builds (replicate 31 demo_record)) writable
         demo_date demo_net 0)) = plog @ flog \<and>
      pruned (make_headers ''tok'') plog [demo_record] \<and>
      length [e \<leftarrow> plog. meth (fst e) = DELETE] = 1 \<and> length flog = 2) \<and>
   (\<exists>plog flog.
      exchanges (snd (main (Some ''tok'') no_args (Builds (replicate 31 demo_record)) writable
         demo_date flaky_net 0)) = plog @ flog \<and>
      pruned (make_headers ''tok'') plog [demo_record] \<and>
      length [e \<leftarrow> plog. meth (fst e) = DELETE] = 1 \<and> length flog = 1)"
proof
  let ?plog = "[(release_by_tag (make_headers ''tok'') (JStr ''20230101-nightly''),
                 \<lparr>status_code = 200, body = Release 77\<rparr>),
                (delete_release (make_headers ''tok'') 77,
                 \<lparr>status_code = 204, body = Unusable\<rparr>)]"
  have one: "take (length (replicate 31 demo_record) - 30) (replicate 31 demo_record)
               = [demo_record]"
    by simp
  from full_run obtain w where
    m: "main (Some ''tok'') no_args (Builds (replicate 31 demo_record)) writable demo_date
          demo_net 0 = (None, w)"
    by auto
  from prune_requests [OF m refl, of "replicate 31 demo_record" "replicate 31 demo_record"]
  obtain flog where
    "exchanges w = ?plog @ flog" "pruned (make_headers ''tok'') ?plog [demo_record]"
    "length flog = 2"
    unfolding one by (auto simp: build_no_args prune_demo CONTAINERS_def simp del: prune.simps)
  then show "\<exists>plog flog.
      exchanges (snd (main (Some ''tok'') no_args (Builds (replicate 31 demo_record)) writable
         demo_date demo_net 0)) = plog @ flog \<and>
      pruned (make_headers ''tok'') plog [demo_record] \<and>
      length [e \<leftarrow> plog. meth (fst e) = DELETE] = 1 \<and> length flog = 2"
    unfolding m by (intro exI [of _ ?plog] exI [of _ flog]) (simp add: request_meth)
  from prune_requests [OF flaky_run refl, of "replicate 31 demo_record"
      "replicate 31 demo_record"]
  obtain flog where
    "[(release_by_tag (make_headers ''tok'') (JStr ''20230101-nightly''),
       \<lparr>status_code = 200, body = Release 77\<rparr>),
      (delete_release (make_headers ''tok'') 77, \<lparr>status_code = 204, body = Unusable\<rparr>),
      (versions_request (make_headers ''tok'') ''openslide'' ''linux-builder'',
       \<lparr>status_code = 500, body = Unusable\<rparr>)] = ?plog @ flog"
    "pruned (make_headers ''tok'') ?plog [demo_record]"
    unfolding one by (auto simp: build_no_args prune_flaky simp del: prune.simps)
  then show "\<exists>plog flog.
      exchanges (snd (main (Some ''tok'') no_args (Builds (replicate 31 demo_record)) writable
         demo_date flaky_net 0)) = plog @ flog \<and>
      pruned (make_headers ''tok'') plog [demo_record] \<and>
      length [e \<leftarrow> plog. meth (fst e) = DELETE] = 1 \<and> length flog = 1"
    unfolding flaky_run
    by (intro exI [of _ ?plog] exI [of _ flog]) (auto simp: request_meth)
qed

subsection \<open>Error statuses\<close>

text \<open>
  C6, as the claim states it, fails: the answer 404 to the lookup of a release is an
  error status that the prune loop handles itself. With 31 stored records and no release
  on the remote side, the lookup is answered 404, the two package-version requests follow
  it, and the run reaches its end.
\<close>

theorem missing_release_is_skipped:
  "fst (main (Some ''tok'') no_args (Builds (replicate 31 demo_record)) writable demo_date gone_net 0)
     = None \<and>
   map (status_code \<circ> snd)
     (exchanges (snd (main (Some ''tok'') no_args (Builds (replicate 31 demo_record)) writable
        demo_date gone_net 0)))
     = [404, 200, 200]"
  using gone_run by auto

text \<open>
  C6, amended. Every answer with a status from 400 to 599, other than 404 to the lookup
  of a release, ends the run at once with the HTTP error of that status: the exchange is
  the last one of the run and neither file has been touched. This holds for the lookups
  and deletes of the prune loop and for the package-version requests.
\<close>

theorem http_errors_propagate:
  assumes "main tok a file out parse_date net now = (outcome, w)"
    and "i < length (exchanges w)" and "exchanges w ! i = (q, resp)"
    and "400 \<le> status_code resp" and "status_code resp < 600"
    and "\<not> (is_lookup q \<and> status_code resp = 404)"
  shows "outcome = Some (HTTPError (status_code resp)) \<and> Suc i = length (exchanges w) \<and>
         html_file w = Untouched \<and> json_file w = None"
proof -
  have fatal: "fatal (exchanges w ! i)"
    using assms(3-6) by (simp add: fatal_def)
  from main_guarded [OF assms(1)] have
    g: "guarded outcome (exchanges w)" and
    u: "(\<exists>e\<in>set (exchanges w). fatal e) \<longrightarrow> html_file w = Untouched \<and> json_file w = None"
    by auto
  from assms(2) have ne: "exchanges w \<noteq> []" by auto
  have last: "Suc i = length (exchanges w)"
  proof (rule ccontr)
    assume "Suc i \<noteq> length (exchanges w)"
    with assms(2) have "i < length (butlast (exchanges w))" by simp
    then have "exchanges w ! i \<in> set (butlast (exchanges w))"
      by (metis nth_butlast nth_mem)
    with g ne fatal show False by (auto simp: guarded_def)
  qed
  then have "i = length (exchanges w) - 1" by simp
  then have "last (exchanges w) = exchanges w ! i"
    using ne by (simp add: last_conv_nth)
  with g ne fatal assms(3) have "outcome = Some (HTTPError (status_code resp))"
    by (auto simp: guarded_def)
  moreover from u fatal assms(2) have "html_file w = Untouched \<and> json_file w = None"
    using nth_mem by blast
  ultimately show ?thesis using last by simp
qed

theorem http_errors_propagate_witness:
  "fst (main (Some ''tok'') no_args (Builds (replicate 31 demo_record)) writable demo_date broken_net 0)
     = Some (HTTPError 500) \<and>
   html_file (snd (main (Some ''tok'') no_args (Builds (replicate 31 demo_record)) writable
      demo_date broken_net 0)) = Untouched \<and>
   json_file (snd (main (Some ''tok'') no_args (Builds (replicate 31 demo_record)) writable
      demo_date broken_net 0)) = None"
  using http_errors_propagate
    [OF broken_run, of 0 "release_by_tag (make_headers ''tok'') (JStr ''20230101-nightly'')"
       "\<lparr>status_code = 500, body = Unusable\<rparr>"]
  by (simp add: broken_run)

subsection \<open>The order of the records\<close>

text \<open>
  C7. The list keeps the order of appending: loading returns the stored list as it is,
  the new record (if any) comes after all loaded ones, and the list written is a suffix of
  the result, so each kept record stands where it stood, shifted by the number of records
  dropped.
\<close>

theorem order_kept:
  assumes "main tok a file out parse_date net now = (outcome, w)"
    and "json_file w = Some (kept, t)"
  shows "\<exists>loaded records.
     load_records file = Inr loaded \<and>
     (\<forall>stored. file = Builds stored \<longrightarrow> loaded = stored) \<and>
     build_new_record parse_date a loaded = Inr records \<and>
     prefix loaded records \<and> length records \<le> Suc (length loaded) \<and>
     suffix kept records \<and>
     (\<forall>i<length kept. kept ! i = records ! (length records - length kept + i))"
proof -
  from assms obtain token loaded records where
    l: "load_records file = Inr loaded" and
    b: "build_new_record parse_date a loaded = Inr records" and
    k: "kept = slice_last RETAIN records"
    by (rule main_json_written)
  have s: "\<forall>stored. file = Builds stored \<longrightarrow> loaded = stored"
    using l by auto
  have p: "prefix loaded records \<and> length records \<le> Suc (length loaded)"
    using build_new_record_cases [OF b] by auto
  have sf: "suffix kept records"
    using k by (simp add: slice_last_suffix)
  have nth: "\<forall>i<length kept. kept ! i = records ! (length records - length kept + i)"
    using k by (auto simp: slice_last_def)
  show ?thesis using l s b p sf nth by blast
qed

theorem order_kept_witness:
  "suffix [demo_record, demo_new] ([demo_record] @ [demo_new]) \<and>
   prefix [demo_record] ([demo_record] @ [demo_new])"
proof -
  have "build_new_record demo_date demo_args [demo_record] = Inr ([demo_record] @ [demo_new])"
    by (simp add: build_new_record_def demo_args_def demo_date_def demo_new_def
        demo_linux_def demo_windows_def)
  then show ?thesis
    using order_kept [OF prod.collapse [symmetric] conjunct2 [OF sample_run]]
    by auto
qed

subsection \<open>The state file written\<close>

text \<open>
  C8. The state file is written exactly by the runs that reach the end. Such a run has
  loaded the stored list (the empty list when the file could not be opened), appended the
  record built from the command line when \<open>--pkgver\<close> is given, pruned the records
  before the last 30, fetched the container metadata, rendered the rows of the last 30
  records and opened both files, in this order; the list written under \<open>builds\<close> is the
  list after the append without all but its last 30 records, so it has
  \<open>min(30, len(records))\<close> elements and ends with the record appended by this run, if
  any.
\<close>

theorem persisted_builds:
  assumes "main tok a file out parse_date net now = (outcome, w)"
  shows "(json_file w \<noteq> None \<longleftrightarrow> outcome = None) \<and>
     (outcome = None \<longrightarrow>
        (\<exists>token loaded records log container_images rows html.
           tok = Some token \<and>
           load_records file = Inr loaded \<and>
           (file = OpenFails \<and> loaded = [] \<or> file = Builds loaded) \<and>
           build_new_record parse_date a loaded = Inr records \<and>
           (\<not> given (pkgver a) \<and> records = loaded \<or>
            (\<exists>v d lb wb os jv wv p ps.
               pkgver a = Some v \<and> v \<noteq> [] \<and> linux_builder a = Some lb \<and>
               windows_builder a = Some wb \<and> openslide a = Some os \<and> java a = Some jv \<and>
               winbuild a = Some wv \<and> split CHR ''-'' v = p # ps \<and> parse_date p = Some d \<and>
               records = loaded @ [new_record v d lb wb os jv wv] \<and>
               last (drop (length records - 30) records) = new_record v d lb wb os jv wv)) \<and>
           prune net (make_headers token) [] (take (length records - 30) records)
             = (None, log) \<and>
           fetch_images net (make_headers token) log Map.empty CONTAINERS
             = (Inr container_images, exchanges w) \<and>
           make_rows None (drop (length records - 30) records) = Inr rows \<and>
           template container_images 30 (rev rows) = Inr html \<and>
           html_opens out \<and> json_opens out \<and>
           html_file w = Complete (html @ nl) \<and>
           json_file w = Some (drop (length records - 30) records, now) \<and>
           length (drop (length records - 30) records) = min 30 (length records)))"
proof (intro conjI impI)
  show "json_file w \<noteq> None \<longleftrightarrow> outcome = None"
  proof
    assume "json_file w \<noteq> None"
    then obtain kept t where "json_file w = Some (kept, t)" by auto
    with assms show "outcome = None" by (rule main_json_written)
  next
    assume "outcome = None"
    with assms have "main tok a file out parse_date net now = (None, w)" by simp
    then show "json_file w \<noteq> None" by (rule main_finished) simp
  qed
next
  assume "outcome = None"
  with assms have m: "main tok a file out parse_date net now = (None, w)" by simp
  from m obtain token loaded records log ci rows html where
    f: "tok = Some token" "load_records file = Inr loaded"
    "build_new_record parse_date a loaded = Inr records"
    "prune net (make_headers token) [] (slice_until_last RETAIN records) = (None, log)"
    "fetch_images net (make_headers token) log Map.empty CONTAINERS = (Inr ci, exchanges w)"
    "make_rows None (slice_last RETAIN records) = Inr rows"
    "template ci RETAIN (rev rows) = Inr html"
    "html_file w = Complete (html @ nl)"
    "json_file w = Some (slice_last RETAIN records, now)"
    "html_opens out" "json_opens out"
    by (rule main_finished)
  note g = f(4-9) [unfolded RETAIN_def slice_until_last_def slice_last_def]
  have ld: "file = OpenFails \<and> loaded = [] \<or> file = Builds loaded"
    using f(2) by (rule load_records_Inr)
  have bd: "\<not> given (pkgver a) \<and> records = loaded \<or>
            (\<exists>v d lb wb os jv wv p ps.
               pkgver a = Some v \<and> v \<noteq> [] \<and> linux_builder a = Some lb \<and>
               windows_builder a = Some wb \<and> openslide a = Some os \<and> java a = Some jv \<and>
               winbuild a = Some wv \<and> split CHR ''-'' v = p # ps \<and> parse_date p = Some d \<and>
               records = loaded @ [new_record v d lb wb os jv wv] \<and>
               last (drop (length records - 30) records) = new_record v d lb wb os jv wv)"
    using build_new_record_Inr [OF f(3)] last_of_kept [of loaded] by metis
  have len: "length (drop (length records - 30) records) = min 30 (length records)"
    by auto
  from f(1,2) ld f(3) bd g(1-4) f(10,11) g(5,6) len
  show "\<exists>token loaded records log container_images rows html.
           tok = Some token \<and>
           load_records file = Inr loaded \<and>
           (file = OpenFails \<and> loaded = [] \<or> file = Builds loaded) \<and>
           build_new_record parse_date a loaded = Inr records \<and>
           (\<not> given (pkgver a) \<and> records = loaded \<or>
            (\<exists>v d lb wb os jv wv p ps.
               pkgver a = Some v \<and> v \<noteq> [] \<and> linux_builder a = Some lb \<and>
               windows_builder a = Some wb \<and> openslide a = Some os \<and> java a = Some jv \<and>
               winbuild a = Some wv \<and> split CHR ''-'' v = p # ps \<and> parse_date p = Some d \<and>
               records = loaded @ [new_record v d lb wb os jv wv] \<and>
               last (drop (length records - 30) records) = new_record v d lb wb os jv wv)) \<and>
           prune net (make_headers token) [] (take (length records - 30) records)
             = (None, log) \<and>
           fetch_images net (make_headers token) log Map.empty CONTAINERS
             = (Inr container_images, exchanges w) \<and>
           make_rows None (drop (length records - 30) records) = Inr rows \<and>
           template container_images 30 (rev rows) = Inr html \<and>
           html_opens out \<and> json_opens out \<and>
           html_file w = Complete (html @ nl) \<and>
           json_file w = Some (drop (length records - 30) records, now) \<and>
           length (drop (length records - 30) records) = min 30 (length records)"
    by - (rule exI [of _ token], rule exI [of _ loaded], rule exI [of _ records],
          rule exI [of _ log], rule exI [of _ ci], rule exI [of _ rows], rule exI [of _ html],
          intro conjI, assumption+)
qed

theorem persisted_builds_witness:
  "fst (main (Some ''tok'') demo_args (Builds (replicate 31 demo_record)) writable demo_date
     demo_net 0) = None \<and>
   json_file (snd (main (Some ''tok'') demo_args (Builds (replicate 31 demo_record)) writable
     demo_date demo_net 0)) = Some (replicate 29 demo_record @ [demo_new], 0)"
proof -
  have m: "main (Some ''tok'') demo_args (Builds (replicate 31 demo_record)) writable demo_date
      demo_net 0
     = (None, snd (main (Some ''tok'') demo_args (Builds (replicate 31 demo_record)) writable
         demo_date demo_net 0))"
    using append_run by (simp add: prod_eq_iff)
  from persisted_builds [OF m] obtain loaded records where
    l: "load_records (Builds (replicate 31 demo_record)) = Inr loaded" and
    b: "build_new_record demo_date demo_args loaded = Inr records" and
    j: "json_file (snd (main (Some ''tok'') demo_args (Builds (replicate 31 demo_record))
         writable demo_date demo_net 0)) = Some (drop (length records - 30) records, 0)"
    by blast
  from l b have "records = replicate 31 demo_record @ [demo_new]"
    by (auto simp: build_demo_args)
  moreover have "drop (length (replicate 31 demo_record @ [demo_new]) - 30)
      (replicate 31 demo_record @ [demo_new]) = replicate 29 demo_record @ [demo_new]"
    by simp
  ultimately show ?thesis
    using j append_run by simp
qed

subsection \<open>An incomplete new build\<close>

text \<open>
  C9, as the claim states it, fails when \<open>--pkgver\<close> is supplied with an empty value:
  the check of the companions is skipped, and with none of them supplied the run reaches
  its end and writes the state file.
\<close>

theorem empty_pkgver_skips_check:
  "fst (main (Some ''tok'') (no_args\<lparr>pkgver := Some ''''\<rparr>) (Builds []) writable demo_date demo_net 0)
     = None \<and>
   json_file (snd (main (Some ''tok'') (no_args\<lparr>pkgver := Some ''''\<rparr>) (Builds []) writable
       demo_date demo_net 0)) = Some ([], 0)"
  by code_simp

text \<open>
  C9, amended. When \<open>--pkgver\<close> is supplied and not empty and one of the five
  companions is absent or empty, the run ends with an exception before any request is made
  and before either file is touched; the exception is the argument error whenever the
  token is set and the state file could be loaded (otherwise it is the earlier exception of
  those steps).
\<close>

theorem incomplete_new_build:
  assumes "given (pkgver a)"
    and "\<not> given (linux_builder a) \<or> \<not> given (windows_builder a) \<or>
         \<not> given (openslide a) \<or> \<not> given (java a) \<or> \<not> given (winbuild a)"
  shows "\<exists>e. main tok a file out parse_date net now
            = (Some e, \<lparr>exchanges = [], html_file = Untouched, json_file = None\<rparr>) \<and>
          (tok \<noteq> None \<and> (\<exists>loaded. load_records file = Inr loaded) \<longrightarrow> e = ArgumentError)"
  using assms
  by (auto simp: main_def before_writing_def build_new_record_def
      split: option.splits sum.splits)

theorem incomplete_new_build_witness:
  "main (Some ''tok'') (demo_args\<lparr>java := None\<rparr>) (Builds [demo_record]) writable demo_date demo_net 0
     = (Some ArgumentError, \<lparr>exchanges = [], html_file = Untouched, json_file = None\<rparr>)"
  using incomplete_new_build
    [of "demo_args\<lparr>java := None\<rparr>" "Some ''tok''" "Builds [demo_record]" writable demo_date
       demo_net 0]
  by (auto simp: demo_args_def)

subsection \<open>The order of the table\<close>



end
